theory Spec2Isabelle
  imports Main
begin

section \<open>Arrays\<close>

text \<open>
  The session pool of \<^verbatim>\<open>agentnet/environment/session_pool.py\<close> keeps its
  sessions in numpy arrays held by theano shared variables. An array is modelled as a
  nested value: \<open>Array ts xs\<close> has the sub-arrays \<open>xs\<close> along its first axis, each
  of shape \<open>ts\<close> (kept so that an array with no rows still has its trailing shape),
  and \<open>Scalar x\<close> is a zero-dimensional element.
\<close>

datatype error = AssertionError | UnboundLocalError | ValueError | IndexError | TypeError

datatype 'a ndarray = Scalar 'a | Array "nat list" "'a ndarray list"

fun shape :: "'a ndarray \<Rightarrow> nat list" where
  "shape (Scalar x) = []"
| "shape (Array ts xs) = length xs # ts"

definition ndim :: "'a ndarray \<Rightarrow> nat" where
  "ndim a = length (shape a)"

fun items :: "'a ndarray \<Rightarrow> 'a ndarray list" where
  "items (Scalar x) = []"
| "items (Array ts xs) = xs"

text \<open>An array is well formed when every sub-array has the recorded shape, at every depth.\<close>

fun wf :: "'a ndarray \<Rightarrow> bool" where
  "wf (Scalar x) = True"
| "wf (Array ts xs) = list_all (\<lambda>x. wf x \<and> shape x = ts) xs"

text \<open>\<^verbatim>\<open>np.zeros(shape)\<close> and \<^verbatim>\<open>np.ones(shape)\<close>.\<close>

fun zeros :: "nat list \<Rightarrow> ('a::zero) ndarray" where
  "zeros [] = Scalar 0"
| "zeros (n # ns) = Array ns (replicate n (zeros ns))"

fun ones :: "nat list \<Rightarrow> ('a::one) ndarray" where
  "ones [] = Scalar 1"
| "ones (n # ns) = Array ns (replicate n (ones ns))"

definition zeros_like :: "('a::zero) ndarray \<Rightarrow> 'a ndarray" where
  "zeros_like a = zeros (shape a)"

text \<open>
  \<^verbatim>\<open>a.astype(dtype)\<close>: the element-wise cast. What a cast does to an element is a
  parameter \<open>cast\<close> of the model (from a dtype's name and an element to the element
  as that dtype stores it).
\<close>

definition astype :: "(string \<Rightarrow> 'a \<Rightarrow> 'a) \<Rightarrow> string \<Rightarrow> 'a ndarray \<Rightarrow> 'a ndarray" where
  "astype cast d a = map_ndarray (cast d) a"

text \<open>
  \<^verbatim>\<open>np.concatenate((a, b), axis=0)\<close>: both arrays need at least one axis and the
  same shape after the first; numpy raises ValueError otherwise.
\<close>

fun concatenate0 :: "'a ndarray \<Rightarrow> 'a ndarray \<Rightarrow> error + 'a ndarray" where
  "concatenate0 (Array ts xs) (Array ts' ys) =
     (if ts = ts' then Inr (Array ts (xs @ ys)) else Inl ValueError)"
| "concatenate0 a b = Inl ValueError"

text \<open>
  \<^verbatim>\<open>T.concatenate([a, b], axis=1)\<close>: both arrays need two axes at least, the same
  extent along the first and the same shape after the second.
\<close>

fun concatenate1 :: "'a ndarray \<Rightarrow> 'a ndarray \<Rightarrow> error + 'a ndarray" where
  "concatenate1 (Array (t # ts) xs) (Array (t' # ts') ys) =
     (if length xs = length ys \<and> ts = ts'
      then Inr (Array ((t + t') # ts) (map2 (\<lambda>x y. Array ts (items x @ items y)) xs ys))
      else Inl ValueError)"
| "concatenate1 a b = Inl ValueError"

text \<open>
  An integer index into an axis of extent \<open>n\<close>, as numpy and theano read it: a
  negative index counts from the end, and an index outside \<open>[-n, n)\<close> raises IndexError.
\<close>

definition norm_index :: "nat \<Rightarrow> int \<Rightarrow> error + nat" where
  "norm_index n i =
     (if 0 \<le> i \<and> i < int n then Inr (nat i)
      else if - int n \<le> i \<and> i < 0 then Inr (nat (i + int n))
      else Inl IndexError)"

text \<open>The first error of a list of results, or all the values: a comprehension that raises.\<close>

fun sequence :: "(error + 'b) list \<Rightarrow> error + 'b list" where
  "sequence [] = Inr []"
| "sequence (x # xs) =
     (case x of
        Inl e \<Rightarrow> Inl e
      | Inr v \<Rightarrow> (case sequence xs of Inl e \<Rightarrow> Inl e | Inr vs \<Rightarrow> Inr (v # vs)))"

text \<open>Running on with a result, or stopping at the exception that was raised.\<close>

definition bind :: "error + 'b \<Rightarrow> ('b \<Rightarrow> error + 'c) \<Rightarrow> error + 'c" where
  "bind m f = (case m of Inl e \<Rightarrow> Inl e | Inr x \<Rightarrow> f x)"

text \<open>\<^verbatim>\<open>a[:, j]\<close>: the sub-array at index \<open>j\<close> of the second axis, for every row.\<close>

fun column :: "'a ndarray \<Rightarrow> int \<Rightarrow> error + 'a ndarray" where
  "column (Array (t # ts) xs) j =
     bind (norm_index t j) (\<lambda>k. Inr (Array ts (map (\<lambda>x. items x ! k) xs)))"
| "column a j = Inl IndexError"

text \<open>
  \<^verbatim>\<open>a[rows, cols]\<close> with two integer vectors: entry \<open>b\<close> of the result is
  \<open>a[rows[b], cols[b]]\<close>. The vectors here always have the same length.
\<close>

fun index_pairs :: "'a ndarray \<Rightarrow> int list \<Rightarrow> int list \<Rightarrow> error + 'a ndarray" where
  "index_pairs (Array (t # ts) xs) rs cs =
     bind (sequence (map2 (\<lambda>r c.
             bind (norm_index (length xs) r) (\<lambda>i.
             bind (norm_index t c) (\<lambda>k.
             Inr (items (xs ! i) ! k)))) rs cs))
       (\<lambda>ys. Inr (Array ts ys))"
| "index_pairs a rs cs = Inl IndexError"

text \<open>
  \<^verbatim>\<open>a[selector]\<close> with an integer vector: the rows of \<open>a\<close> at the selector's
  indices, in the selector's order.
\<close>

fun take_rows :: "'a ndarray \<Rightarrow> int list \<Rightarrow> error + 'a ndarray" where
  "take_rows (Array ts xs) selector =
     bind (sequence (map (norm_index (length xs)) selector))
       (\<lambda>ks. Inr (Array ts (map (\<lambda>k. xs ! k) ks)))"
| "take_rows (Scalar x) selector = Inl IndexError"

text \<open>\<^verbatim>\<open>len(a)\<close>: the extent of the first axis.\<close>

fun len :: "'a ndarray \<Rightarrow> error + nat" where
  "len (Array ts xs) = Inr (length xs)"
| "len (Scalar x) = Inl TypeError"

text \<open>
  \<^verbatim>\<open>xs[-m:]\<close> on the rows of an array or on a Python list: the last \<open>m\<close> entries
  when \<open>m\<close> is positive, everything when \<open>m = 0\<close> (the slice \<^verbatim>\<open>[0:]\<close>), and
  the entries from index \<open>-m\<close> on when \<open>m\<close> is negative.
\<close>

definition slice_last :: "int \<Rightarrow> 'b list \<Rightarrow> 'b list" where
  "slice_last m xs = (if 0 < m then drop (length xs - nat m) xs else drop (nat (- m)) xs)"

fun slice_last_rows :: "int \<Rightarrow> 'a ndarray \<Rightarrow> error + 'a ndarray" where
  "slice_last_rows m (Array ts xs) = Inr (Array ts (slice_last m xs))"
| "slice_last_rows m (Scalar x) = Inl IndexError"

text \<open>
  Modelled from the spec: \<^verbatim>\<open>insert_dim\<close> of \<^verbatim>\<open>agentnet.utils\<close>, which is not
  among the sources. The padded view has one extra tick per trajectory, so
  \<^verbatim>\<open>insert_dim(a, i)\<close> puts a new axis of extent one at position \<open>i\<close>: at
  position 1 every row becomes a one-entry array holding it.
\<close>

fun insert_dim :: "'a ndarray \<Rightarrow> nat \<Rightarrow> error + 'a ndarray" where
  "insert_dim a 0 = Inr (Array (shape a) [a])"
| "insert_dim (Array ts xs) (Suc i) =
     (if i \<le> length ts
      then bind (sequence (map (\<lambda>x. insert_dim x i) xs))
             (\<lambda>ys. Inr (Array (take i ts @ 1 # drop i ts) ys))
      else Inl ValueError)"
| "insert_dim (Scalar x) (Suc i) = Inl ValueError"

text \<open>Machine integers: the environment state is an int32 tick counter.\<close>

definition int32 :: "int \<Rightarrow> int" where
  "int32 x = (x + 2 ^ 31) mod 2 ^ 32 - 2 ^ 31"

section \<open>Shared variables\<close>

text \<open>
  Modelled from the spec: \<^verbatim>\<open>create_shared\<close> and \<^verbatim>\<open>set_shared\<close> of
  \<^verbatim>\<open>agentnet.utils\<close>, which are not among the sources. A stream has a dtype fixed
  at construction and every write is cast to it; \<^verbatim>\<open>set_shared\<close> replaces the
  stream's array wholesale. A theano shared variable is typed by its dtype and its number
  of dimensions, so a value of another number of dimensions is refused (TypeError); a
  value of any extents is taken.
\<close>

record 'a shared =
  name :: string
  dtype :: string
  get_value :: "'a ndarray"

definition create_shared ::
  "(string \<Rightarrow> 'a \<Rightarrow> 'a) \<Rightarrow> string \<Rightarrow> 'a ndarray \<Rightarrow> string \<Rightarrow> 'a shared" where
  "create_shared cast nm initial_value dt =
     \<lparr>name = nm, dtype = dt, get_value = astype cast dt initial_value\<rparr>"

definition set_shared ::
  "(string \<Rightarrow> 'a \<Rightarrow> 'a) \<Rightarrow> 'a shared \<Rightarrow> 'a ndarray \<Rightarrow> error + 'a shared" where
  "set_shared cast var v =
     (if ndim v = ndim (get_value var)
      then Inr (var\<lparr>get_value := astype cast (dtype var) v\<rparr>)
      else Inl TypeError)"

text \<open>
  The loop \<^verbatim>\<open>for var, seq in zip(vars, seqs): set_shared(var, seq)\<close>: the
  variables after the loop, and the error that stopped it, if any. The variables written
  before the error keep their new values.
\<close>

fun set_all ::
  "(string \<Rightarrow> 'a \<Rightarrow> 'a) \<Rightarrow> 'a shared list \<Rightarrow> 'a ndarray list \<Rightarrow> 'a shared list \<times> error option" where
  "set_all cast (v # vs) (x # xs) =
     (case set_shared cast v x of
        Inl e \<Rightarrow> (v # vs, Some e)
      | Inr v' \<Rightarrow> (case set_all cast vs xs of (vs', r) \<Rightarrow> (v' # vs', r)))"
| "set_all cast vs xs = (vs, None)"

section \<open>The session pool\<close>

text \<open>\<^verbatim>\<open>str(i)\<close> for a natural number.\<close>

fun str :: "nat \<Rightarrow> string" where
  "str n = (if n < 10 then [''0123456789'' ! n]
            else str (n div 10) @ [''0123456789'' ! (n mod 10)])"

declare str.simps [simp del]

text \<open>\<^verbatim>\<open>theano.config.floatX\<close>, the configured float dtype, by name.\<close>

definition floatX :: string where
  "floatX = ''floatX''"

text \<open>
  A layer given as a template: the pool reads its output shape and, when it declares one,
  its dtype. Modelled from the spec: \<^verbatim>\<open>get_layer_dtype\<close> of
  \<^verbatim>\<open>agentnet.utils.layers\<close>, not among the sources: the declared dtype, or the
  default when the layer declares none.
\<close>

record layer =
  output_shape :: "nat list"
  output_dtype :: "string option"

definition get_layer_dtype :: "layer \<Rightarrow> string \<Rightarrow> string" where
  "get_layer_dtype l default_dtype = (case output_dtype l of Some d \<Rightarrow> d | None \<Rightarrow> default_dtype)"

text \<open>A constructor argument is a number of channels or a list of layers to mimic.\<close>

datatype channels = Count int | Layers "layer list"

record 'a pool =
  observations :: "'a shared list"
  actions :: "'a shared list"
  preceding_agent_memories :: "'a shared list"
  rewards :: "'a shared"
  is_alive :: "'a shared"
  rng_seed :: int
  observation_shapes :: "nat list list"
  action_shapes :: "nat list list"

definition init_observations :: "(string \<Rightarrow> 'a \<Rightarrow> 'a) \<Rightarrow> channels \<Rightarrow> ('a::zero) shared list" where
  "init_observations cast obs =
     (case obs of
        Count n \<Rightarrow>
          map (\<lambda>i. create_shared cast (''sessions.observations_history.'' @ str i)
                      (zeros [10, 5, 2]) floatX) [0..<nat n]
      | Layers ls \<Rightarrow>
          map (\<lambda>(i, l). create_shared cast (''sessions.observations_history.'' @ str i)
                      (zeros (10 # 5 # tl (output_shape l))) (get_layer_dtype l floatX))
              (enumerate 0 ls))"

definition init_actions ::
  "(string \<Rightarrow> 'a \<Rightarrow> 'a) \<Rightarrow> channels \<Rightarrow> string \<Rightarrow> ('a::zero) shared list" where
  "init_actions cast acts default_action_dtype =
     (case acts of
        Count n \<Rightarrow>
          map (\<lambda>i. create_shared cast (''session.actions_history.'' @ str i)
                      (zeros [10, 5]) default_action_dtype) [0..<nat n]
      | Layers ls \<Rightarrow>
          map (\<lambda>(i, l). create_shared cast (''session.actions_history.'' @ str i)
                      (zeros (10 # 5 # tl (output_shape l))) (get_layer_dtype l floatX))
              (enumerate 0 ls))"

definition init_memories :: "(string \<Rightarrow> 'a \<Rightarrow> 'a) \<Rightarrow> channels \<Rightarrow> ('a::zero) shared list" where
  "init_memories cast mems =
     (case mems of
        Count n \<Rightarrow>
          map (\<lambda>i. create_shared cast (''session.prev_memory.'' @ str i)
                      (zeros [10, 5]) floatX) [0..<nat n]
      | Layers ls \<Rightarrow>
          map (\<lambda>(i, l). create_shared cast (''session.prev_memory.'' @ str i)
                      (zeros (10 # tl (output_shape l))) (get_layer_dtype l floatX))
              (enumerate 0 ls))"

text \<open>
  \<^verbatim>\<open>SessionPoolEnvironment.__init__\<close>. The observation and action shapes are the ones
  handed to the base environment: the shape of each stream after its first two axes.
\<close>

definition init ::
  "(string \<Rightarrow> 'a \<Rightarrow> 'a) \<Rightarrow> channels \<Rightarrow> channels \<Rightarrow> channels \<Rightarrow> string \<Rightarrow> int
     \<Rightarrow> ('a::{zero,one}) pool" where
  "init cast obs acts agent_memories default_action_dtype seed =
     \<lparr>observations = init_observations cast obs,
      actions = init_actions cast acts default_action_dtype,
      preceding_agent_memories = init_memories cast agent_memories,
      rewards = create_shared cast ''session.rewards_history'' (zeros [10, 5]) floatX,
      is_alive = create_shared cast ''session.is_alive'' (ones [10, 5]) ''uint8'',
      rng_seed = seed,
      observation_shapes =
        map (\<lambda>v. drop 2 (shape (get_value v))) (init_observations cast obs),
      action_shapes =
        map (\<lambda>v. drop 2 (shape (get_value v))) (init_actions cast acts default_action_dtype)\<rparr>"

text \<open>
  The shapes \<^verbatim>\<open>self.rewards.shape[0]\<close> and \<^verbatim>\<open>self.rewards.shape[1]\<close> are
  symbolic: they are read from the rewards array whenever they are used.
\<close>

definition pool_size :: "'a pool \<Rightarrow> error + nat" where
  "pool_size p = (case shape (get_value (rewards p)) of n # ts \<Rightarrow> Inr n | [] \<Rightarrow> Inl IndexError)"

definition batch_size :: "'a pool \<Rightarrow> error + nat" where
  "batch_size p = pool_size p"

definition sequence_length :: "'a pool \<Rightarrow> error + nat" where
  "sequence_length p =
     (case shape (get_value (rewards p)) of n # t # ts \<Rightarrow> Inr t | _ \<Rightarrow> Inl IndexError)"

section \<open>The padded view and the action-result step\<close>

text \<open>
  \<^verbatim>\<open>T.concatenate([obs, T.zeros_like(insert_dim(obs[:, 0], 1))], axis=1)\<close>, for one
  observation array. The padded observations are symbolic expressions over the
  shared variables, so they follow the pool's current arrays.
\<close>

definition padded :: "('a::zero) ndarray \<Rightarrow> error + 'a ndarray" where
  "padded obs =
     bind (column obs 0) (\<lambda>c.
     bind (insert_dim c 1) (\<lambda>d.
     concatenate1 obs (zeros_like d)))"

definition padded_observations :: "('a::zero) pool \<Rightarrow> error + 'a ndarray list" where
  "padded_observations p = sequence (map (\<lambda>obs. padded (get_value obs)) (observations p))"

text \<open>
  \<^verbatim>\<open>get_action_results(last_states, actions)\<close>: \<open>last_states\<close> is the list of
  state tensors, of which the first is the int32 vector of time ticks, one per session of
  the batch. The actions are not read.
\<close>

definition get_action_results ::
  "('a::zero) pool \<Rightarrow> int list list \<Rightarrow> 'b \<Rightarrow> error + (int list list \<times> 'a ndarray list)" where
  "get_action_results p last_states acts =
     (case last_states of
        [] \<Rightarrow> Inl IndexError
      | time_i # rest \<Rightarrow>
          (let batch_range = map int [0..<length time_i] in
           bind (padded_observations p) (\<lambda>pads.
           bind (sequence (map (\<lambda>obs. index_pairs obs batch_range
                                  (map (\<lambda>t. int32 (t + 1)) time_i)) pads))
             (\<lambda>new_observations.
           Inr ([map (\<lambda>t. int32 (t + 1)) time_i], new_observations)))))"

section \<open>Loading and appending sessions\<close>

text \<open>
  A method that writes the pool returns the pool as it leaves it, and the exception it
  raised, if any: what a caller that catches the exception finds in the pool.
\<close>

definition then_do ::
  "'s \<times> error option \<Rightarrow> ('s \<Rightarrow> 's \<times> error option) \<Rightarrow> 's \<times> error option" where
  "then_do sr f = (case sr of (s, None) \<Rightarrow> f s | (s, Some e) \<Rightarrow> (s, Some e))"

definition set_observations ::
  "(string \<Rightarrow> 'a \<Rightarrow> 'a) \<Rightarrow> 'a ndarray list \<Rightarrow> 'a pool \<Rightarrow> 'a pool \<times> error option" where
  "set_observations cast seqs p =
     (case set_all cast (observations p) seqs of (vs, r) \<Rightarrow> (p\<lparr>observations := vs\<rparr>, r))"

definition set_actions ::
  "(string \<Rightarrow> 'a \<Rightarrow> 'a) \<Rightarrow> 'a ndarray list \<Rightarrow> 'a pool \<Rightarrow> 'a pool \<times> error option" where
  "set_actions cast seqs p =
     (case set_all cast (actions p) seqs of (vs, r) \<Rightarrow> (p\<lparr>actions := vs\<rparr>, r))"

definition set_rewards ::
  "(string \<Rightarrow> 'a \<Rightarrow> 'a) \<Rightarrow> 'a ndarray \<Rightarrow> 'a pool \<Rightarrow> 'a pool \<times> error option" where
  "set_rewards cast reward_seq p =
     (case set_shared cast (rewards p) reward_seq of
        Inl e \<Rightarrow> (p, Some e)
      | Inr v \<Rightarrow> (p\<lparr>rewards := v\<rparr>, None))"

definition set_is_alive ::
  "(string \<Rightarrow> 'a \<Rightarrow> 'a) \<Rightarrow> 'a ndarray option \<Rightarrow> 'a pool \<Rightarrow> 'a pool \<times> error option" where
  "set_is_alive cast alive p =
     (case alive of
        None \<Rightarrow> (p, None)
      | Some a \<Rightarrow> (case set_shared cast (is_alive p) a of
                     Inl e \<Rightarrow> (p, Some e)
                   | Inr v \<Rightarrow> (p\<lparr>is_alive := v\<rparr>, None)))"

definition set_memories ::
  "(string \<Rightarrow> 'a \<Rightarrow> 'a) \<Rightarrow> 'a ndarray list option \<Rightarrow> 'a pool \<Rightarrow> 'a pool \<times> error option" where
  "set_memories cast prev_memories p =
     (case prev_memories of
        None \<Rightarrow> (p, None)
      | Some ms \<Rightarrow> (case set_all cast (preceding_agent_memories p) ms of
                      (vs, r) \<Rightarrow> (p\<lparr>preceding_agent_memories := vs\<rparr>, r)))"

text \<open>
  The three assertions that open \<^verbatim>\<open>load_sessions\<close> and \<^verbatim>\<open>append_sessions\<close>:
  the numbers of observation and action arrays, and of memory arrays when they are given.
\<close>

definition counts_agree :: "'a pool \<Rightarrow> 'b list \<Rightarrow> 'c list \<Rightarrow> 'd list option \<Rightarrow> bool" where
  "counts_agree p observation_sequences action_sequences prev_memories =
     (length observation_sequences = length (observations p)
      \<and> length action_sequences = length (actions p)
      \<and> (case prev_memories of
           None \<Rightarrow> True
         | Some ms \<Rightarrow> length ms = length (preceding_agent_memories p)))"

text \<open>\<^verbatim>\<open>load_sessions\<close>: the assertions, then one write per stream, in the source's order.\<close>

definition load_sessions ::
  "(string \<Rightarrow> 'a \<Rightarrow> 'a) \<Rightarrow> 'a pool \<Rightarrow> 'a ndarray list \<Rightarrow> 'a ndarray list \<Rightarrow> 'a ndarray
     \<Rightarrow> 'a ndarray option \<Rightarrow> 'a ndarray list option \<Rightarrow> 'a pool \<times> error option" where
  "load_sessions cast p observation_sequences action_sequences reward_seq alive prev_memories =
     (if \<not> counts_agree p observation_sequences action_sequences prev_memories
      then (p, Some AssertionError)
      else
        then_do (set_observations cast observation_sequences p) (\<lambda>p.
        then_do (set_actions cast action_sequences p) (\<lambda>p.
        then_do (set_rewards cast reward_seq p) (\<lambda>p.
        then_do (set_is_alive cast alive p) (\<lambda>p.
        set_memories cast prev_memories p)))))"

text \<open>
  A local variable of \<^verbatim>\<open>append_sessions\<close> that only some paths assign is an
  option: \<open>None\<close> while it is unbound. Reading an unbound local raises
  UnboundLocalError.
\<close>

definition read_local :: "'b option \<Rightarrow> error + 'b" where
  "read_local v = (case v of None \<Rightarrow> Inl UnboundLocalError | Some x \<Rightarrow> Inr x)"

text \<open>
  The body of the crop (lines 258 to 262): it reads and assigns the locals
  \<^verbatim>\<open>observation_tensor\<close> and \<^verbatim>\<open>action_tensor\<close>, then crops the rewards, the
  liveness array and the list of memory arrays. It returns the three locals that the
  commit reads afterwards.
\<close>

definition crop ::
  "int \<Rightarrow> 'a ndarray option \<Rightarrow> 'a ndarray option \<Rightarrow> 'a ndarray \<Rightarrow> 'a ndarray option
     \<Rightarrow> 'a ndarray list option
     \<Rightarrow> error + ('a ndarray \<times> 'a ndarray option \<times> 'a ndarray list option)" where
  "crop max_pool_size observation_tensor action_tensor reward_tensor is_alive_tensor
        preceding_memory_states =
     bind (read_local observation_tensor) (\<lambda>ot.
     bind (slice_last_rows max_pool_size ot) (\<lambda>ot'.
     bind (read_local action_tensor) (\<lambda>at.
     bind (slice_last_rows max_pool_size at) (\<lambda>at'.
     bind (slice_last_rows max_pool_size reward_tensor) (\<lambda>rt.
     bind (read_local is_alive_tensor) (\<lambda>ia.
     bind (slice_last_rows max_pool_size ia) (\<lambda>ia'.
     bind (read_local preceding_memory_states) (\<lambda>ms.
     Inr (rt, Some ia', Some (slice_last max_pool_size ms))))))))))"

text \<open>
  The arrays \<^verbatim>\<open>append_sessions\<close> builds before it commits (lines 232 to 262, and
  the reading of the arguments of the call in line 265). The concatenations build new
  arrays and leave the pool as it is. The locals \<^verbatim>\<open>observation_tensor\<close> and
  \<^verbatim>\<open>action_tensor\<close> of the crop are bound nowhere before it (the concatenated lists
  are \<^verbatim>\<open>observation_tensors\<close> and \<^verbatim>\<open>action_tensors\<close>), so the crop gets them
  unbound.
\<close>

definition concatenate_all :: "'a shared list \<Rightarrow> 'a ndarray list \<Rightarrow> error + 'a ndarray list" where
  "concatenate_all vars seqs =
     sequence (map2 (\<lambda>var new. concatenate0 (get_value var) new) vars seqs)"

definition append_tensors ::
  "'a pool \<Rightarrow> 'a ndarray list \<Rightarrow> 'a ndarray list \<Rightarrow> 'a ndarray
     \<Rightarrow> 'a ndarray option \<Rightarrow> 'a ndarray list option \<Rightarrow> int option
     \<Rightarrow> error + ('a ndarray list \<times> 'a ndarray list \<times> 'a ndarray \<times> 'a ndarray \<times> 'a ndarray list)" where
  "append_tensors p observation_sequences action_sequences reward_seq alive prev_memories
       max_pool_size =
     bind (concatenate_all (observations p) observation_sequences) (\<lambda>observation_tensors.
     bind (concatenate_all (actions p) action_sequences) (\<lambda>action_tensors.
     bind (concatenate0 (get_value (rewards p)) reward_seq) (\<lambda>reward_tensor.
     bind (case alive of
             None \<Rightarrow> Inr None
           | Some a \<Rightarrow> bind (concatenate0 (get_value (is_alive p)) a) (\<lambda>t. Inr (Some t)))
       (\<lambda>is_alive_tensor.
     bind (case prev_memories of
             None \<Rightarrow> Inr None
           | Some ms \<Rightarrow>
               bind (concatenate_all (preceding_agent_memories p) ms) (\<lambda>ts. Inr (Some ts)))
       (\<lambda>preceding_memory_states.
     bind (case max_pool_size of
             None \<Rightarrow> Inr (reward_tensor, is_alive_tensor, preceding_memory_states)
           | Some m \<Rightarrow>
               (case observation_tensors of
                  [] \<Rightarrow> Inl IndexError
                | t # ts \<Rightarrow>
                    bind (len t) (\<lambda>new_size.
                      if int new_size > m
                      then crop m None None reward_tensor is_alive_tensor preceding_memory_states
                      else Inr (reward_tensor, is_alive_tensor, preceding_memory_states))))
       (\<lambda>(reward_tensor, is_alive_tensor, preceding_memory_states).
     bind (read_local is_alive_tensor) (\<lambda>ia.
     bind (read_local preceding_memory_states) (\<lambda>ms.
     Inr (observation_tensors, action_tensors, reward_tensor, ia, ms)))))))))"

text \<open>
  \<^verbatim>\<open>append_sessions\<close>: the assertions, the arrays to commit, and the call of
  \<^verbatim>\<open>load_sessions\<close> that ends the method, the only step that writes the pool.
\<close>

definition append_sessions ::
  "(string \<Rightarrow> 'a \<Rightarrow> 'a) \<Rightarrow> 'a pool \<Rightarrow> 'a ndarray list \<Rightarrow> 'a ndarray list \<Rightarrow> 'a ndarray
     \<Rightarrow> 'a ndarray option \<Rightarrow> 'a ndarray list option \<Rightarrow> int option
     \<Rightarrow> 'a pool \<times> error option" where
  "append_sessions cast p observation_sequences action_sequences reward_seq alive prev_memories
       max_pool_size =
     (if \<not> counts_agree p observation_sequences action_sequences prev_memories
      then (p, Some AssertionError)
      else
        (case append_tensors p observation_sequences action_sequences reward_seq alive
                prev_memories max_pool_size of
           Inl e \<Rightarrow> (p, Some e)
         | Inr (observation_tensors, action_tensors, reward_tensor, ia, ms) \<Rightarrow>
             load_sessions cast p observation_tensors action_tensors reward_tensor
               (Some ia) (Some ms)))"

section \<open>Selecting and sampling\<close>

text \<open>
  What \<^verbatim>\<open>select_session_batch\<close> hands to the constructor of
  \<^verbatim>\<open>SessionBatchEnvironment\<close> (not among the sources): the selected streams and the
  pool's observation and action shapes. A selected stream is a symbolic expression
  \<^verbatim>\<open>stream[selector]\<close> over the pool's shared variable: building it reads nothing
  and raises nothing. Its field holds what evaluating the expression gives, the selected
  array or the error the indexing raises, for each stream on its own.
\<close>

record 'a session_batch =
  batch_observations :: "(error + 'a ndarray) list"
  batch_observation_shapes :: "nat list list"
  batch_actions :: "(error + 'a ndarray) list"
  batch_action_shapes :: "nat list list"
  batch_rewards :: "error + 'a ndarray"
  batch_is_alive :: "error + 'a ndarray"
  batch_preceding_agent_memories :: "(error + 'a ndarray) list"

definition select_session_batch :: "'a pool \<Rightarrow> int list \<Rightarrow> 'a session_batch" where
  "select_session_batch p selector =
     (let selected_observations =
            map (\<lambda>observation_seq. take_rows (get_value observation_seq) selector)
              (observations p);
          selected_actions =
            map (\<lambda>action_seq. take_rows (get_value action_seq) selector) (actions p);
          selected_prev_memories =
            map (\<lambda>prev_memory. take_rows (get_value prev_memory) selector)
              (preceding_agent_memories p)
      in \<lparr>batch_observations = selected_observations,
          batch_observation_shapes = observation_shapes p,
          batch_actions = selected_actions,
          batch_action_shapes = action_shapes p,
          batch_rewards = take_rows (get_value (rewards p)) selector,
          batch_is_alive = take_rows (get_value (is_alive p)) selector,
          batch_preceding_agent_memories = selected_prev_memories\<rparr>)"

text \<open>
  \<^verbatim>\<open>sample_session_batch\<close>. The draw of \<^verbatim>\<open>self.rng.choice\<close> is a parameter:
  \<open>choice n a replace\<close> stands for the indices one call returns for the size \<open>n\<close>,
  the range \<open>a\<close> and the flag \<open>replace\<close>. The size and the range read the pool
  size, that is the first extent of the rewards matrix.
\<close>

definition sample_session_batch ::
  "(int \<Rightarrow> nat \<Rightarrow> bool \<Rightarrow> int list) \<Rightarrow> 'a pool \<Rightarrow> int \<Rightarrow> bool \<Rightarrow> error + 'a session_batch" where
  "sample_session_batch choice p max_n_samples replace =
     bind (pool_size p) (\<lambda>n.
       let n_samples = (if replace then max_n_samples else min max_n_samples (int n));
           sample_ids = choice n_samples n replace
       in Inr (select_session_batch p sample_ids))"

section \<open>Notions the statements use\<close>

text \<open>
  Two arrays can be joined along the first axis when both have one and their shapes agree
  after it; \<open>join\<close> is the array \<^verbatim>\<open>np.concatenate\<close> then returns.
\<close>

definition joinable :: "'a ndarray \<Rightarrow> 'a ndarray \<Rightarrow> bool" where
  "joinable a b = (0 < ndim a \<and> 0 < ndim b \<and> tl (shape a) = tl (shape b))"

definition join :: "'a ndarray \<Rightarrow> 'a ndarray \<Rightarrow> 'a ndarray" where
  "join a b = Array (tl (shape a)) (items a @ items b)"

text \<open>Every array supplied to \<^verbatim>\<open>append_sessions\<close> can be joined onto its stream.\<close>

definition joinable_all ::
  "'a pool \<Rightarrow> 'a ndarray list \<Rightarrow> 'a ndarray list \<Rightarrow> 'a ndarray \<Rightarrow> 'a ndarray option
     \<Rightarrow> 'a ndarray list option \<Rightarrow> bool" where
  "joinable_all p obs acts rew alive mems =
     (list_all (\<lambda>(v, x). joinable (get_value v) x) (zip (observations p) obs)
      \<and> list_all (\<lambda>(v, x). joinable (get_value v) x) (zip (actions p) acts)
      \<and> joinable (get_value (rewards p)) rew
      \<and> (case alive of None \<Rightarrow> True | Some a \<Rightarrow> joinable (get_value (is_alive p)) a)
      \<and> (case mems of
           None \<Rightarrow> True
         | Some ms \<Rightarrow> list_all (\<lambda>(v, x). joinable (get_value v) x)
                        (zip (preceding_agent_memories p) ms)))"

text \<open>
  A supplied array has the number of dimensions of the variable it is written to; and the
  variable after such a write.
\<close>

definition same_ndim :: "'a shared \<times> 'a ndarray \<Rightarrow> bool" where
  "same_ndim vx = (ndim (snd vx) = ndim (get_value (fst vx)))"

definition ranks_agree ::
  "'a pool \<Rightarrow> 'a ndarray list \<Rightarrow> 'a ndarray list \<Rightarrow> 'a ndarray \<Rightarrow> 'a ndarray option
     \<Rightarrow> 'a ndarray list option \<Rightarrow> bool" where
  "ranks_agree p obs acts rew alive mems =
     (list_all same_ndim (zip (observations p) obs)
      \<and> list_all same_ndim (zip (actions p) acts)
      \<and> same_ndim (rewards p, rew)
      \<and> (case alive of None \<Rightarrow> True | Some a \<Rightarrow> same_ndim (is_alive p, a))
      \<and> (case mems of
           None \<Rightarrow> True
         | Some ms \<Rightarrow> list_all same_ndim (zip (preceding_agent_memories p) ms)))"

definition written :: "(string \<Rightarrow> 'a \<Rightarrow> 'a) \<Rightarrow> 'a shared \<Rightarrow> 'a ndarray \<Rightarrow> 'a shared" where
  "written cast var v = var\<lparr>get_value := astype cast (dtype var) v\<rparr>"

text \<open>The pool after a load that wrote every supplied stream.\<close>

definition loaded ::
  "(string \<Rightarrow> 'a \<Rightarrow> 'a) \<Rightarrow> 'a pool \<Rightarrow> 'a ndarray list \<Rightarrow> 'a ndarray list \<Rightarrow> 'a ndarray
     \<Rightarrow> 'a ndarray option \<Rightarrow> 'a ndarray list option \<Rightarrow> 'a pool" where
  "loaded cast p obs acts rew alive mems =
     p\<lparr>observations := map2 (written cast) (observations p) obs,
       actions := map2 (written cast) (actions p) acts,
       rewards := written cast (rewards p) rew,
       is_alive := (case alive of None \<Rightarrow> is_alive p | Some a \<Rightarrow> written cast (is_alive p) a),
       preceding_agent_memories :=
         (case mems of
            None \<Rightarrow> preceding_agent_memories p
          | Some ms \<Rightarrow> map2 (written cast) (preceding_agent_memories p) ms)\<rparr>"

text \<open>
  A load that stops at an array of another number of dimensions has written what came
  before it. Of a list of variables, the ones before the first such array are written;
  of the pool, the streams are written in the order observations, actions, rewards,
  liveness, memories, up to the one that stops the load.
\<close>

definition partly_written ::
  "(string \<Rightarrow> 'a \<Rightarrow> 'a) \<Rightarrow> 'a shared list \<Rightarrow> 'a ndarray list \<Rightarrow> 'a shared list" where
  "partly_written cast vs xs =
     (let k = length (takeWhile same_ndim (zip vs xs))
      in map2 (written cast) (take k vs) (take k xs) @ drop k vs)"

definition partly_loaded ::
  "(string \<Rightarrow> 'a \<Rightarrow> 'a) \<Rightarrow> 'a pool \<Rightarrow> 'a ndarray list \<Rightarrow> 'a ndarray list \<Rightarrow> 'a ndarray
     \<Rightarrow> 'a ndarray option \<Rightarrow> 'a ndarray list option \<Rightarrow> 'a pool" where
  "partly_loaded cast p obs acts rew alive mems =
     (let ok_o = list_all same_ndim (zip (observations p) obs);
          ok_a = (ok_o \<and> list_all same_ndim (zip (actions p) acts));
          ok_r = (ok_a \<and> same_ndim (rewards p, rew));
          ok_l = (ok_r \<and> (case alive of None \<Rightarrow> True | Some a \<Rightarrow> same_ndim (is_alive p, a)))
      in p\<lparr>observations := partly_written cast (observations p) obs,
           actions := (if ok_o then partly_written cast (actions p) acts else actions p),
           rewards := (if ok_r then written cast (rewards p) rew else rewards p),
           is_alive :=
             (case alive of
                None \<Rightarrow> is_alive p
              | Some a \<Rightarrow> if ok_l then written cast (is_alive p) a else is_alive p),
           preceding_agent_memories :=
             (case mems of
                None \<Rightarrow> preceding_agent_memories p
              | Some ms \<Rightarrow>
                  if ok_l then partly_written cast (preceding_agent_memories p) ms
                  else preceding_agent_memories p)\<rparr>)"

text \<open>
  For the selection: an index that numpy accepts for \<open>n\<close> rows, the row it stands
  for, the rows of an array gathered at a list of such indices, and what indexing an
  array with a list of indices gives: the gathered rows when the array has a first axis
  and accepts every index, an IndexError otherwise.
\<close>

definition in_range :: "nat \<Rightarrow> int \<Rightarrow> bool" where
  "in_range n i = (- int n \<le> i \<and> i < int n)"

definition row_of :: "nat \<Rightarrow> int \<Rightarrow> nat" where
  "row_of n i = (if i < 0 then nat (i + int n) else nat i)"

definition gather :: "nat \<Rightarrow> 'a ndarray \<Rightarrow> int list \<Rightarrow> 'a ndarray" where
  "gather n a selector = Array (tl (shape a)) (map (\<lambda>i. items a ! row_of n i) selector)"

definition selected :: "'a ndarray \<Rightarrow> int list \<Rightarrow> error + 'a ndarray" where
  "selected a selector =
     (if 0 < ndim a \<and> list_all (in_range (length (items a))) selector
      then Inr (gather (length (items a)) a selector)
      else Inl IndexError)"

text \<open>
  For the padded view: an observation array of \<open>n\<close> sessions of \<open>T\<close> ticks, the
  entry \<open>a[b, t]\<close>, and the padded array as the spec words it: each session followed
  by one tick of zeros.
\<close>

definition sessions :: "nat \<Rightarrow> nat \<Rightarrow> 'a ndarray \<Rightarrow> bool" where
  "sessions n T a = (wf a \<and> 2 \<le> ndim a \<and> shape a ! 0 = n \<and> shape a ! 1 = T)"

definition entry :: "'a ndarray \<Rightarrow> nat \<Rightarrow> nat \<Rightarrow> 'a ndarray" where
  "entry a b t = items (items a ! b) ! t"

definition pad :: "('a::zero) ndarray \<Rightarrow> 'a ndarray" where
  "pad a =
     (let rest = drop 2 (shape a)
      in Array (Suc (shape a ! 1) # rest)
           (map (\<lambda>row. Array rest (items row @ [zeros rest])) (items a)))"

section \<open>Example sessions\<close>

text \<open>
  Integer elements, with the casts numpy applies to integers: \<^verbatim>\<open>uint8\<close> and
  \<^verbatim>\<open>int32\<close> wrap around, and the float dtypes keep an integer as it is.
\<close>

definition cast_int :: "string \<Rightarrow> int \<Rightarrow> int" where
  "cast_int d x = (if d = ''uint8'' then x mod 256 else if d = ''int32'' then int32 x else x)"

definition vec :: "'a list \<Rightarrow> 'a ndarray" where
  "vec xs = Array [] (map Scalar xs)"

text \<open>The pool as the constructor's defaults make it: one channel of each kind.\<close>

definition pool0 :: "int pool" where
  "pool0 = init cast_int (Count 1) (Count 1) (Count 1) ''int32'' 1337"

text \<open>
  Two sessions \<open>A\<close> and one session \<open>B\<close>, of two ticks each, with one number per
  observation and one memory unit.
\<close>

definition obs_A :: "int ndarray" where
  "obs_A = Array [2, 1] [Array [1] [vec [1], vec [2]], Array [1] [vec [3], vec [4]]]"

definition act_A :: "int ndarray" where
  "act_A = Array [2] [vec [0, 1], vec [1, 0]]"

definition rew_A :: "int ndarray" where
  "rew_A = Array [2] [vec [1, 1], vec [0, 0]]"

definition alive_A :: "int ndarray" where
  "alive_A = Array [2] [vec [1, 1], vec [1, 0]]"

definition mem_A :: "int ndarray" where
  "mem_A = Array [1] [vec [7], vec [8]]"

definition obs_B :: "int ndarray" where
  "obs_B = Array [2, 1] [Array [1] [vec [5], vec [6]]]"

definition act_B :: "int ndarray" where
  "act_B = Array [2] [vec [1, 1]]"

definition rew_B :: "int ndarray" where
  "rew_B = Array [2] [vec [2, 2]]"

definition alive_B :: "int ndarray" where
  "alive_B = Array [2] [vec [1, 1]]"

definition mem_B :: "int ndarray" where
  "mem_B = Array [1] [vec [9]]"

text \<open>The pool after the sessions \<open>A\<close> are loaded into the fresh pool.\<close>

definition pool_A :: "int pool" where
  "pool_A = fst (load_sessions cast_int pool0 [obs_A] [act_A] rew_A (Some alive_A) (Some [mem_A]))"

text \<open>
  The same load without the liveness array and the memories, which then keep the
  placeholders of the constructor (ten rows).
\<close>

definition pool_A_only :: "int pool" where
  "pool_A_only = fst (load_sessions cast_int pool0 [obs_A] [act_A] rew_A None None)"

text \<open>Rewards of two sessions of five ticks, and rewards that are a vector, not a matrix.\<close>

definition rew_5 :: "int ndarray" where
  "rew_5 = Array [5] [vec [1, 1, 1, 1, 1], vec [0, 0, 0, 0, 0]]"

definition rew_flat :: "int ndarray" where
  "rew_flat = vec [1, 2]"

text \<open>
  The pool after a load of the sessions \<open>A\<close>, of two ticks, with rewards of five
  ticks: the load compares no shapes and succeeds.
\<close>

definition pool_A_5 :: "int pool" where
  "pool_A_5 = fst (load_sessions cast_int pool0 [obs_A] [act_A] rew_5 None None)"

section \<open>Basic facts\<close>

lemmas example_defs =
  pool_A_def pool_A_only_def pool_A_5_def pool0_def obs_A_def act_A_def rew_A_def alive_A_def mem_A_def
  obs_B_def act_B_def rew_B_def alive_B_def mem_B_def rew_5_def rew_flat_def vec_def

lemmas init_defs =
  init_def init_observations_def init_actions_def init_memories_def create_shared_def

lemmas load_defs =
  load_sessions_def counts_agree_def then_do_def set_observations_def set_actions_def
  set_rewards_def set_is_alive_def set_memories_def set_shared_def astype_def ndim_def

lemma bind_Inl [simp]: "bind (Inl e) f = Inl e"
  by (simp add: bind_def)

lemma bind_Inr [simp]: "bind (Inr x) f = f x"
  by (simp add: bind_def)

lemma sequence_map_Inr: "sequence (map (\<lambda>x. Inr (f x)) xs) = Inr (map f xs)"
  by (induction xs) simp_all

lemma pool0_channels:
  "length (observations pool0) = 1" "length (actions pool0) = 1"
  "length (preceding_agent_memories pool0) = 1"
  by (simp_all add: pool0_def init_defs)

section \<open>Channel counts\<close>

lemma load_counts_disagree:
  "\<not> counts_agree p obs acts mems \<Longrightarrow>
     load_sessions cast p obs acts rew alive mems = (p, Some AssertionError)"
  by (simp add: load_sessions_def)

lemma append_counts_disagree:
  "\<not> counts_agree p obs acts mems \<Longrightarrow>
     append_sessions cast p obs acts rew alive mems m = (p, Some AssertionError)"
  by (simp add: append_sessions_def)

text \<open>
  Claim C7. When the number of observation arrays, of action arrays, or of memory arrays
  (when memories are supplied) differs from the pool's number of channels, both
  \<^verbatim>\<open>load_sessions\<close> and \<^verbatim>\<open>append_sessions\<close> raise the assertion's error (the spec's
  ChannelCountMismatch) and leave the pool exactly as it was: the assertions come before
  any write.
\<close>

theorem channel_count_mismatch:
  assumes "length obs \<noteq> length (observations p) \<or> length acts \<noteq> length (actions p)
           \<or> (\<exists>ms. mems = Some ms \<and> length ms \<noteq> length (preceding_agent_memories p))"
  shows "load_sessions cast p obs acts rew alive mems = (p, Some AssertionError)
         \<and> append_sessions cast p obs acts rew alive mems m = (p, Some AssertionError)"
proof -
  from assms have "\<not> counts_agree p obs acts mems"
    by (auto simp: counts_agree_def)
  then show ?thesis
    by (simp add: load_counts_disagree append_counts_disagree)
qed

theorem channel_count_mismatch_witness:
  "length ([] :: int ndarray list) \<noteq> length (observations pool0)
   \<and> load_sessions cast_int pool0 [] [act_A] rew_A None None = (pool0, Some AssertionError)
   \<and> append_sessions cast_int pool0 [] [act_A] rew_A None None (Some 3)
       = (pool0, Some AssertionError)"
  using channel_count_mismatch [of "[]" pool0 "[act_A]" None cast_int rew_A None "Some 3"]
  by (simp add: pool0_channels)

section \<open>Appending\<close>

lemma crop_unbound: "crop m None None r a ms = Inl UnboundLocalError"
  by (simp add: crop_def read_local_def)

lemma concatenate0_joinable: "joinable a b \<Longrightarrow> concatenate0 a b = Inr (join a b)"
  by (cases a; cases b) (simp_all add: joinable_def join_def ndim_def)

lemma concatenate0_Inr: "concatenate0 a b = Inr c \<Longrightarrow> joinable a b \<and> c = join a b"
  by (cases a; cases b) (auto simp: joinable_def join_def ndim_def split: if_splits)

lemma len_join: "len (join a b) = Inr (length (items a) + length (items b))"
  by (simp add: join_def)

lemma concatenate_all_joinable:
  "list_all (\<lambda>(v, x). joinable (get_value v) x) (zip vs xs) \<Longrightarrow>
     concatenate_all vs xs = Inr (map2 (\<lambda>v x. join (get_value v) x) vs xs)"
  unfolding concatenate_all_def
  by (induction vs xs rule: list_induct2') (simp_all add: concatenate0_joinable)

lemma append_tensors_missing:
  assumes "alive = None \<or> mems = None"
  shows "\<exists>e. append_tensors p obs acts rew alive mems m = Inl e"
  using assms
  by (auto simp: append_tensors_def bind_def read_local_def crop_def
      split: sum.splits option.splits list.splits prod.splits if_splits)

lemma append_tensors_unbound:
  assumes miss: "alive = None \<or> mems = None"
    and cnt: "counts_agree p obs acts mems"
    and jn: "joinable_all p obs acts rew alive mems"
    and ch: "m \<noteq> None \<longrightarrow> observations p \<noteq> []"
  shows "append_tensors p obs acts rew alive mems m = Inl UnboundLocalError"
proof -
  let ?ots = "map2 (\<lambda>v x. join (get_value v) x) (observations p) obs"
  have o: "concatenate_all (observations p) obs = Inr ?ots"
    using jn by (simp add: joinable_all_def concatenate_all_joinable)
  have a: "concatenate_all (actions p) acts
             = Inr (map2 (\<lambda>v x. join (get_value v) x) (actions p) acts)"
    using jn by (simp add: joinable_all_def concatenate_all_joinable)
  have r: "concatenate0 (get_value (rewards p)) rew = Inr (join (get_value (rewards p)) rew)"
    using jn by (simp add: joinable_all_def concatenate0_joinable)
  have ne: "\<exists>t ts. ?ots = t # ts \<and> (\<exists>n. len t = Inr n)" if "m \<noteq> None"
  proof -
    from that ch cnt have "observations p \<noteq> []" "length obs = length (observations p)"
      by (simp_all add: counts_agree_def)
    then obtain v vs x xs where "observations p = v # vs" "obs = x # xs"
      by (cases "observations p"; cases obs) auto
    then show ?thesis by (simp add: len_join)
  qed
  show ?thesis
  proof (cases m)
    case None
    with miss jn show ?thesis
      by (auto simp: append_tensors_def o a r read_local_def joinable_all_def
          concatenate0_joinable concatenate_all_joinable split: option.splits)
  next
    case (Some k)
    with ne obtain t ts n where "?ots = t # ts" "len t = Inr n" by auto
    with Some miss jn show ?thesis
      by (auto simp: append_tensors_def o a r read_local_def joinable_all_def crop_unbound
          concatenate0_joinable concatenate_all_joinable split: option.splits)
  qed
qed

text \<open>
  Claim C10. When \<^verbatim>\<open>append_sessions\<close> is called without the liveness array or
  without the memories, the call fails and the pool is exactly as it was, since
  \<^verbatim>\<open>load_sessions\<close> is never reached. On every call that gets as far as the commit
  (the channel counts agree, every supplied array can be joined onto its stream and, if
  a maximal pool size is given, the pool has an observation channel whose length the
  crop can read) the error is the one of an unbound local name: the commit reads the
  liveness and the memory locals, which such a call has not assigned.
\<close>

theorem append_without_optional_streams:
  assumes "alive = None \<or> mems = None"
  shows "fst (append_sessions cast p obs acts rew alive mems m) = p
         \<and> snd (append_sessions cast p obs acts rew alive mems m) \<noteq> None
         \<and> (counts_agree p obs acts mems \<and> joinable_all p obs acts rew alive mems
              \<and> (m \<noteq> None \<longrightarrow> observations p \<noteq> [])
            \<longrightarrow> snd (append_sessions cast p obs acts rew alive mems m) = Some UnboundLocalError)"
proof -
  obtain e where e: "append_tensors p obs acts rew alive mems m = Inl e"
    using append_tensors_missing [OF assms] by blast
  have 1: "fst (append_sessions cast p obs acts rew alive mems m) = p"
    by (simp add: append_sessions_def e)
  have 2: "snd (append_sessions cast p obs acts rew alive mems m) \<noteq> None"
    by (simp add: append_sessions_def e)
  have 3: "snd (append_sessions cast p obs acts rew alive mems m) = Some UnboundLocalError"
    if "counts_agree p obs acts mems" "joinable_all p obs acts rew alive mems"
       "m \<noteq> None \<longrightarrow> observations p \<noteq> []"
    using append_tensors_unbound [OF assms that] that(1)
    by (simp add: append_sessions_def)
  from 1 2 3 show ?thesis by blast
qed

theorem append_without_optional_streams_witness:
  "fst (append_sessions cast_int pool_A [obs_B] [act_B] rew_B None (Some [mem_B]) (Some 5)) = pool_A
   \<and> snd (append_sessions cast_int pool_A [obs_B] [act_B] rew_B None (Some [mem_B]) (Some 5))
       = Some UnboundLocalError"
  using append_without_optional_streams
          [of None "Some [mem_B]" cast_int pool_A "[obs_B]" "[act_B]" rew_B "Some 5"]
  by (simp add: example_defs init_defs load_defs joinable_all_def joinable_def)

text \<open>
  The crop never succeeds: whenever the concatenated pool is longer than the maximal pool
  size, the call raises on the unbound local and leaves the pool as it was.
\<close>

lemma append_crop_always_raises:
  assumes cnt: "counts_agree p obs acts mems"
    and jn: "joinable_all p obs acts rew alive mems"
    and v: "observations p = v # vs" and x: "obs = x # xs"
    and big: "int (length (items (get_value v)) + length (items x)) > m"
  shows "append_sessions cast p obs acts rew alive mems (Some m) = (p, Some UnboundLocalError)"
proof -
  have o: "concatenate_all (observations p) obs
             = Inr (join (get_value v) x # map2 (\<lambda>v x. join (get_value v) x) vs xs)"
    using jn by (simp add: joinable_all_def concatenate_all_joinable v x)
  have a: "concatenate_all (actions p) acts
             = Inr (map2 (\<lambda>v x. join (get_value v) x) (actions p) acts)"
    using jn by (simp add: joinable_all_def concatenate_all_joinable)
  have r: "concatenate0 (get_value (rewards p)) rew = Inr (join (get_value (rewards p)) rew)"
    using jn by (simp add: joinable_all_def concatenate0_joinable)
  have "append_tensors p obs acts rew alive mems (Some m) = Inl UnboundLocalError"
    using jn big
    by (cases alive; cases mems)
       (simp_all add: append_tensors_def o a r len_join crop_unbound joinable_all_def
          concatenate0_joinable concatenate_all_joinable)
  with cnt show ?thesis by (simp add: append_sessions_def)
qed

text \<open>
  Claim C1 (the code does not do what the claim and the method's docstring say). The pool
  holds the two sessions \<open>A\<close>; appending the session \<open>B\<close> with a maximal pool size of
  two makes three rows, so the crop is entered. Its first line reads the local
  \<^verbatim>\<open>observation_tensor\<close>, which nothing has assigned: the call raises and the pool
  still holds \<open>A\<close>, where the claim has it hold the last two rows of \<open>A\<close> followed by
  \<open>B\<close>.
\<close>

theorem append_crop_raises:
  "append_sessions cast_int pool_A [obs_B] [act_B] rew_B (Some alive_B) (Some [mem_B]) (Some 2)
     = (pool_A, Some UnboundLocalError)
   \<and> get_value (rewards pool_A) = rew_A"
  by (simp add: example_defs init_defs load_defs append_sessions_def append_tensors_def
      concatenate_all_def crop_unbound cast_int_def floatX_def)

section \<open>Loading\<close>

lemma shape_astype [simp]: "shape (astype cast d a) = shape a"
  by (cases a) (simp_all add: astype_def)

lemma ndim_astype [simp]: "ndim (astype cast d a) = ndim a"
  by (simp add: ndim_def)

lemma set_shared_ok: "same_ndim (v, x) \<Longrightarrow> set_shared cast v x = Inr (written cast v x)"
  by (simp add: set_shared_def same_ndim_def written_def)

lemma set_shared_fail: "\<not> same_ndim (v, x) \<Longrightarrow> set_shared cast v x = Inl TypeError"
  by (simp add: set_shared_def same_ndim_def)

lemma set_all_ok:
  "length xs = length vs \<Longrightarrow> list_all same_ndim (zip vs xs) \<Longrightarrow>
     set_all cast vs xs = (map2 (written cast) vs xs, None)"
  by (induction vs xs rule: list_induct2') (simp_all add: set_shared_ok)

lemma set_shared_Inl: "set_shared cast v x = Inl e \<Longrightarrow> e = TypeError"
  by (simp add: set_shared_def split: if_splits)

lemma set_all_fail:
  "\<not> list_all same_ndim (zip vs xs) \<Longrightarrow> snd (set_all cast vs xs) = Some TypeError"
  by (induction vs xs rule: list_induct2')
     (auto simp: set_shared_ok set_shared_fail dest: set_shared_Inl split: prod.splits sum.splits)

lemma then_do_None [simp]: "then_do (s, None) f = f s"
  by (simp add: then_do_def)

lemma then_do_Some [simp]: "then_do (s, Some e) f = (s, Some e)"
  by (simp add: then_do_def)

lemma set_all_fail_ex:
  "\<not> list_all same_ndim (zip vs xs) \<Longrightarrow> \<exists>vs'. set_all cast vs xs = (vs', Some TypeError)"
  using set_all_fail [of vs xs cast] by (cases "set_all cast vs xs") simp

lemma set_observations_ok:
  "length obs = length (observations p) \<Longrightarrow> list_all same_ndim (zip (observations p) obs) \<Longrightarrow>
     set_observations cast obs p = (p\<lparr>observations := map2 (written cast) (observations p) obs\<rparr>, None)"
  by (simp add: set_observations_def set_all_ok)

lemma set_observations_fail:
  "\<not> list_all same_ndim (zip (observations p) obs) \<Longrightarrow>
     \<exists>q. set_observations cast obs p = (q, Some TypeError)"
  using set_all_fail_ex [of "observations p" obs cast] by (auto simp: set_observations_def)

lemma set_actions_ok:
  "length acts = length (actions p) \<Longrightarrow> list_all same_ndim (zip (actions p) acts) \<Longrightarrow>
     set_actions cast acts p = (p\<lparr>actions := map2 (written cast) (actions p) acts\<rparr>, None)"
  by (simp add: set_actions_def set_all_ok)

lemma set_actions_fail:
  "\<not> list_all same_ndim (zip (actions p) acts) \<Longrightarrow>
     \<exists>q. set_actions cast acts p = (q, Some TypeError)"
  using set_all_fail_ex [of "actions p" acts cast] by (auto simp: set_actions_def)

lemma set_rewards_ok:
  "same_ndim (rewards p, rew) \<Longrightarrow>
     set_rewards cast rew p = (p\<lparr>rewards := written cast (rewards p) rew\<rparr>, None)"
  by (simp add: set_rewards_def set_shared_ok)

lemma set_rewards_fail:
  "\<not> same_ndim (rewards p, rew) \<Longrightarrow> set_rewards cast rew p = (p, Some TypeError)"
  by (simp add: set_rewards_def set_shared_fail)

lemma set_is_alive_None [simp]: "set_is_alive cast None p = (p, None)"
  by (simp add: set_is_alive_def)

lemma set_is_alive_ok:
  "same_ndim (is_alive p, a) \<Longrightarrow>
     set_is_alive cast (Some a) p = (p\<lparr>is_alive := written cast (is_alive p) a\<rparr>, None)"
  by (simp add: set_is_alive_def set_shared_ok)

lemma set_is_alive_fail:
  "\<not> same_ndim (is_alive p, a) \<Longrightarrow> set_is_alive cast (Some a) p = (p, Some TypeError)"
  by (simp add: set_is_alive_def set_shared_fail)

lemma set_memories_None [simp]: "set_memories cast None p = (p, None)"
  by (simp add: set_memories_def)

lemma set_memories_ok:
  "length ms = length (preceding_agent_memories p) \<Longrightarrow>
   list_all same_ndim (zip (preceding_agent_memories p) ms) \<Longrightarrow>
     set_memories cast (Some ms) p =
       (p\<lparr>preceding_agent_memories := map2 (written cast) (preceding_agent_memories p) ms\<rparr>,
        None)"
  by (simp add: set_memories_def set_all_ok)

lemma set_memories_fail:
  "\<not> list_all same_ndim (zip (preceding_agent_memories p) ms) \<Longrightarrow>
     \<exists>q. set_memories cast (Some ms) p = (q, Some TypeError)"
  using set_all_fail_ex [of "preceding_agent_memories p" ms cast]
  by (auto simp: set_memories_def)

lemma load_sessions_ok:
  assumes "counts_agree p obs acts mems" "ranks_agree p obs acts rew alive mems"
  shows "load_sessions cast p obs acts rew alive mems = (loaded cast p obs acts rew alive mems, None)"
  using assms
  by (cases alive; cases mems)
     (simp_all add: load_sessions_def counts_agree_def ranks_agree_def loaded_def
        set_observations_ok set_actions_ok set_rewards_ok set_is_alive_ok set_memories_ok)

lemma load_sessions_type_error:
  assumes cnt: "counts_agree p obs acts mems" and nr: "\<not> ranks_agree p obs acts rew alive mems"
  shows "snd (load_sessions cast p obs acts rew alive mems) = Some TypeError"
proof -
  from cnt have c: "length obs = length (observations p)" "length acts = length (actions p)"
    by (simp_all add: counts_agree_def)
  let ?o = "list_all same_ndim (zip (observations p) obs)"
  let ?a = "list_all same_ndim (zip (actions p) acts)"
  let ?r = "same_ndim (rewards p, rew)"
  let ?l = "\<forall>a. alive = Some a \<longrightarrow> same_ndim (is_alive p, a)"
  let ?m = "\<forall>ms. mems = Some ms \<longrightarrow> list_all same_ndim (zip (preceding_agent_memories p) ms)"
  from nr have "\<not> (?o \<and> ?a \<and> ?r \<and> ?l \<and> ?m)"
    by (auto simp: ranks_agree_def split: option.splits)
  then consider (o) "\<not> ?o" | (a) "?o" "\<not> ?a" | (r) "?o" "?a" "\<not> ?r"
    | (l) "?o" "?a" "?r" "\<not> ?l" | (m) "?o" "?a" "?r" "?l" "\<not> ?m"
    by blast
  then show ?thesis
  proof cases
    case o
    from set_observations_fail [OF this, of cast] obtain q
      where "set_observations cast obs p = (q, Some TypeError)" by blast
    with cnt show ?thesis by (simp add: load_sessions_def)
  next
    case a
    let ?p1 = "p\<lparr>observations := map2 (written cast) (observations p) obs\<rparr>"
    from a(2) have "\<not> list_all same_ndim (zip (actions ?p1) acts)" by simp
    from set_actions_fail [OF this, of cast] obtain q
      where "set_actions cast acts ?p1 = (q, Some TypeError)" by blast
    with cnt c a(1) show ?thesis
      by (simp add: load_sessions_def set_observations_ok)
  next
    case r
    with cnt c show ?thesis
      by (simp add: load_sessions_def set_observations_ok set_actions_ok set_rewards_fail)
  next
    case l
    then obtain x where "alive = Some x" "\<not> same_ndim (is_alive p, x)" by blast
    with l(1-3) cnt c show ?thesis
      by (simp add: load_sessions_def set_observations_ok set_actions_ok set_rewards_ok
          set_is_alive_fail)
  next
    case m
    then obtain ms where ms: "mems = Some ms"
      "\<not> list_all same_ndim (zip (preceding_agent_memories p) ms)" by blast
    let ?p3 = "p\<lparr>observations := map2 (written cast) (observations p) obs,
                 actions := map2 (written cast) (actions p) acts,
                 rewards := written cast (rewards p) rew\<rparr>"
    show ?thesis
    proof (cases alive)
      case None
      from ms(2) have "\<not> list_all same_ndim (zip (preceding_agent_memories ?p3) ms)" by simp
      from set_memories_fail [OF this, of cast] obtain q
        where "set_memories cast (Some ms) ?p3 = (q, Some TypeError)" by blast
      with None ms(1) cnt c m(1-3) show ?thesis
        by (simp add: load_sessions_def set_observations_ok set_actions_ok set_rewards_ok)
    next
      case (Some x)
      let ?p4 = "?p3\<lparr>is_alive := written cast (is_alive p) x\<rparr>"
      from ms(2) have "\<not> list_all same_ndim (zip (preceding_agent_memories ?p4) ms)" by simp
      from set_memories_fail [OF this, of cast] obtain q
        where "set_memories cast (Some ms) ?p4 = (q, Some TypeError)" by blast
      with Some ms(1) cnt c m(1-4) show ?thesis
        by (simp add: load_sessions_def set_observations_ok set_actions_ok set_rewards_ok
            set_is_alive_ok)
    qed
  qed
qed

text \<open>
  Claim C6. When the channel counts agree and every supplied array has the number of
  dimensions of its stream, \<^verbatim>\<open>load_sessions\<close> succeeds, and reading the streams
  afterwards gives the supplied arrays, each cast to the dtype of its stream: the
  observations, the actions and the rewards always, the liveness array and the memories
  when they were supplied (they are left as they were otherwise).
\<close>

theorem load_round_trip:
  assumes "counts_agree p obs acts mems" and "ranks_agree p obs acts rew alive mems"
  shows "snd (load_sessions cast p obs acts rew alive mems) = None
    \<and> (let p' = fst (load_sessions cast p obs acts rew alive mems) in
         map get_value (observations p') = map2 (\<lambda>v x. astype cast (dtype v) x) (observations p) obs
       \<and> map get_value (actions p') = map2 (\<lambda>v x. astype cast (dtype v) x) (actions p) acts
       \<and> get_value (rewards p') = astype cast (dtype (rewards p)) rew
       \<and> (case alive of
            None \<Rightarrow> is_alive p' = is_alive p
          | Some a \<Rightarrow> get_value (is_alive p') = astype cast (dtype (is_alive p)) a)
       \<and> (case mems of
            None \<Rightarrow> preceding_agent_memories p' = preceding_agent_memories p
          | Some ms \<Rightarrow> map get_value (preceding_agent_memories p')
                        = map2 (\<lambda>v x. astype cast (dtype v) x) (preceding_agent_memories p) ms))"
proof -
  show ?thesis
    unfolding load_sessions_ok [OF assms]
    by (cases alive; cases mems) (auto simp: loaded_def written_def)
qed

theorem load_round_trip_witness:
  "counts_agree pool0 [obs_A] [act_A] (Some [mem_A])
   \<and> ranks_agree pool0 [obs_A] [act_A] rew_A (Some alive_A) (Some [mem_A])
   \<and> map get_value (observations pool_A) = [obs_A]
   \<and> map get_value (actions pool_A) = [act_A]
   \<and> get_value (rewards pool_A) = rew_A
   \<and> get_value (is_alive pool_A) = alive_A
   \<and> map get_value (preceding_agent_memories pool_A) = [mem_A]"
proof -
  have c: "counts_agree pool0 [obs_A] [act_A] (Some [mem_A])"
    by (simp add: counts_agree_def pool0_channels)
  have r: "ranks_agree pool0 [obs_A] [act_A] rew_A (Some alive_A) (Some [mem_A])"
    by (simp add: ranks_agree_def same_ndim_def ndim_def example_defs init_defs astype_def)
  from load_round_trip [OF c r, of cast_int] c r show ?thesis
    unfolding pool_A_def Let_def
    by (simp add: pool0_def init_defs astype_def cast_int_def int32_def floatX_def
        obs_A_def act_A_def rew_A_def alive_A_def mem_A_def vec_def)
qed

lemma partly_written_Nil [simp]:
  "partly_written cast [] xs = []" "partly_written cast vs [] = vs"
  by (simp_all add: partly_written_def)

lemma partly_written_Cons [simp]:
  "partly_written cast (v # vs) (x # xs)
     = (if same_ndim (v, x) then written cast v x # partly_written cast vs xs else v # vs)"
  by (simp add: partly_written_def Let_def)

lemma set_all_eq:
  "set_all cast vs xs
     = (partly_written cast vs xs,
        if list_all same_ndim (zip vs xs) then None else Some TypeError)"
  by (induction vs xs rule: list_induct2') (simp_all add: set_shared_ok set_shared_fail)

lemma partly_written_all:
  "length xs = length vs \<Longrightarrow> list_all same_ndim (zip vs xs) \<Longrightarrow>
     partly_written cast vs xs = map2 (written cast) vs xs"
  by (induction vs xs rule: list_induct2') simp_all

lemma then_do_if:
  "then_do (s, if c then None else Some e) f = (if c then f s else (s, Some e))"
  by simp

lemma set_observations_eq:
  "set_observations cast obs p
     = (p\<lparr>observations := partly_written cast (observations p) obs\<rparr>,
        if list_all same_ndim (zip (observations p) obs) then None else Some TypeError)"
  by (simp add: set_observations_def set_all_eq)

lemma set_actions_eq:
  "set_actions cast acts p
     = (p\<lparr>actions := partly_written cast (actions p) acts\<rparr>,
        if list_all same_ndim (zip (actions p) acts) then None else Some TypeError)"
  by (simp add: set_actions_def set_all_eq)

lemma set_rewards_eq:
  "set_rewards cast rew p
     = (if same_ndim (rewards p, rew) then (p\<lparr>rewards := written cast (rewards p) rew\<rparr>, None)
        else (p, Some TypeError))"
  by (simp add: set_rewards_ok set_rewards_fail)

lemma set_is_alive_eq:
  "set_is_alive cast (Some a) p
     = (if same_ndim (is_alive p, a) then (p\<lparr>is_alive := written cast (is_alive p) a\<rparr>, None)
        else (p, Some TypeError))"
  by (simp add: set_is_alive_ok set_is_alive_fail)

lemma set_memories_eq:
  "set_memories cast (Some ms) p
     = (p\<lparr>preceding_agent_memories := partly_written cast (preceding_agent_memories p) ms\<rparr>,
        if list_all same_ndim (zip (preceding_agent_memories p) ms) then None else Some TypeError)"
  by (simp add: set_memories_def set_all_eq)

lemmas load_steps =
  set_observations_eq set_actions_eq set_rewards_eq set_is_alive_eq set_memories_eq then_do_if

lemma load_sessions_eq:
  assumes "counts_agree p obs acts mems"
  shows "load_sessions cast p obs acts rew alive mems
           = (partly_loaded cast p obs acts rew alive mems,
              if ranks_agree p obs acts rew alive mems then None else Some TypeError)"
proof (cases alive; cases mems)
  assume "alive = None" "mems = None"
  with assms show ?thesis
    by (simp add: load_sessions_def load_steps partly_loaded_def ranks_agree_def)
next
  fix ms assume "alive = None" "mems = Some ms"
  with assms show ?thesis
    by (simp add: load_sessions_def load_steps partly_loaded_def ranks_agree_def)
next
  fix a assume "alive = Some a" "mems = None"
  with assms show ?thesis
    by (simp add: load_sessions_def load_steps partly_loaded_def ranks_agree_def)
next
  fix a ms assume "alive = Some a" "mems = Some ms"
  with assms show ?thesis
    by (simp add: load_sessions_def load_steps partly_loaded_def ranks_agree_def)
qed

lemma partly_loaded_all:
  assumes "counts_agree p obs acts mems" "ranks_agree p obs acts rew alive mems"
  shows "partly_loaded cast p obs acts rew alive mems = loaded cast p obs acts rew alive mems"
  using load_sessions_eq [OF assms(1), of cast rew alive] load_sessions_ok [OF assms, of cast]
    assms(2)
  by simp

text \<open>
  Claim C2, as amended. \<^verbatim>\<open>load_sessions\<close> validates the channel counts and nothing
  else before it writes. When the counts disagree it raises the assertion's error and
  the pool is as it was. When they agree it writes the streams one after the other,
  without comparing shapes: if every supplied array has the number of dimensions of its
  stream the call succeeds, whatever the extents of the arrays, and every supplied
  stream holds its array (cast to its dtype); if some array has another number of
  dimensions the call fails there with a TypeError, and the streams written before it
  keep their new arrays, so that a failed load can leave the pool partly replaced.
\<close>

theorem load_validates_counts_only:
  "(\<not> counts_agree p obs acts mems \<longrightarrow>
      load_sessions cast p obs acts rew alive mems = (p, Some AssertionError))
   \<and> (counts_agree p obs acts mems \<and> ranks_agree p obs acts rew alive mems \<longrightarrow>
      load_sessions cast p obs acts rew alive mems
        = (loaded cast p obs acts rew alive mems, None))
   \<and> (counts_agree p obs acts mems \<and> \<not> ranks_agree p obs acts rew alive mems \<longrightarrow>
      load_sessions cast p obs acts rew alive mems
        = (partly_loaded cast p obs acts rew alive mems, Some TypeError))"
  by (simp add: load_counts_disagree load_sessions_ok load_sessions_eq)

theorem load_validates_counts_only_witness:
  "load_sessions cast_int pool0 [] [act_B] rew_B None None = (pool0, Some AssertionError)
   \<and> snd (load_sessions cast_int pool0 [obs_A] [act_B] rew_B None None) = None
   \<and> map get_value (observations (fst (load_sessions cast_int pool0 [obs_A] [act_B] rew_B None None)))
       = [obs_A]
   \<and> get_value (rewards (fst (load_sessions cast_int pool0 [obs_A] [act_B] rew_B None None)))
       = rew_B
   \<and> snd (load_sessions cast_int pool0 [obs_A] [act_A] rew_flat None None) = Some TypeError
   \<and> map get_value (actions (fst (load_sessions cast_int pool0 [obs_A] [act_A] rew_flat None None)))
       = [act_A]
   \<and> rewards (fst (load_sessions cast_int pool0 [obs_A] [act_A] rew_flat None None))
       = rewards pool0"
proof -
  have c0: "\<not> counts_agree pool0 [] [act_B] (None :: int ndarray list option)"
    by (simp add: counts_agree_def pool0_channels)
  have c1: "counts_agree pool0 [obs_A] [act_B] (None :: int ndarray list option)"
    and c2: "counts_agree pool0 [obs_A] [act_A] (None :: int ndarray list option)"
    by (simp_all add: counts_agree_def pool0_channels)
  have r1: "ranks_agree pool0 [obs_A] [act_B] rew_B None None"
    by (simp add: ranks_agree_def same_ndim_def ndim_def example_defs init_defs astype_def)
  have r2: "\<not> ranks_agree pool0 [obs_A] [act_A] rew_flat None None"
    by (simp add: ranks_agree_def same_ndim_def ndim_def example_defs init_defs astype_def)
  have o: "list_all same_ndim (zip (observations pool0) [obs_A])"
    and a: "list_all same_ndim (zip (actions pool0) [act_A])"
    by (simp_all add: same_ndim_def ndim_def example_defs init_defs astype_def)
  have l1: "load_sessions cast_int pool0 [obs_A] [act_B] rew_B None None
              = (loaded cast_int pool0 [obs_A] [act_B] rew_B None None, None)"
    using load_validates_counts_only [of pool0 "[obs_A]" "[act_B]" None cast_int rew_B None] c1 r1
    by blast
  have l2: "load_sessions cast_int pool0 [obs_A] [act_A] rew_flat None None
              = (partly_loaded cast_int pool0 [obs_A] [act_A] rew_flat None None, Some TypeError)"
    using load_validates_counts_only [of pool0 "[obs_A]" "[act_A]" None cast_int rew_flat None] c2 r2
    by blast
  have l0: "load_sessions cast_int pool0 [] [act_B] rew_B None None = (pool0, Some AssertionError)"
    using load_validates_counts_only [of pool0 "[]" "[act_B]" None cast_int rew_B None] c0
    by blast
  have v1: "map get_value (observations (loaded cast_int pool0 [obs_A] [act_B] rew_B None None))
              = [obs_A]"
    "get_value (rewards (loaded cast_int pool0 [obs_A] [act_B] rew_B None None)) = rew_B"
    by (simp_all add: loaded_def written_def astype_def example_defs init_defs cast_int_def
        floatX_def)
  have v2: "map get_value (actions (partly_loaded cast_int pool0 [obs_A] [act_A] rew_flat None None))
              = [act_A]"
    "rewards (partly_loaded cast_int pool0 [obs_A] [act_A] rew_flat None None) = rewards pool0"
    using o a r2
    by (simp_all add: partly_loaded_def ranks_agree_def)
       (simp_all add: written_def astype_def example_defs init_defs cast_int_def int32_def)
  show ?thesis
    unfolding l0 l1 l2 using v1 v2 by simp
qed

text \<open>
  The claim as it was stated fails on both counts. Arrays of inconsistent shapes (two
  sessions of observations, one session of actions and of rewards, beside the ten
  sessions of the liveness array the pool already has) are loaded without an error, and
  stored. And a load that fails is not undone: with rewards that are a vector the call
  raises at the rewards, after the observations have been replaced.
\<close>

theorem load_inconsistent_shapes_counterexample:
  "snd (load_sessions cast_int pool0 [obs_A] [act_B] rew_B None None) = None
   \<and> map (\<lambda>v. shape (get_value v))
        (observations (fst (load_sessions cast_int pool0 [obs_A] [act_B] rew_B None None)))
      = [[2, 2, 1]]
   \<and> map (\<lambda>v. shape (get_value v))
        (actions (fst (load_sessions cast_int pool0 [obs_A] [act_B] rew_B None None)))
      = [[1, 2]]
   \<and> shape (get_value (rewards (fst (load_sessions cast_int pool0 [obs_A] [act_B] rew_B None None))))
      = [1, 2]
   \<and> shape (get_value (is_alive (fst (load_sessions cast_int pool0 [obs_A] [act_B] rew_B None None))))
      = [10, 5]
   \<and> snd (load_sessions cast_int pool0 [obs_A] [act_A] rew_flat None None) = Some TypeError
   \<and> map (\<lambda>v. shape (get_value v)) (observations pool0) = [[10, 5, 2]]
   \<and> map (\<lambda>v. shape (get_value v))
        (observations (fst (load_sessions cast_int pool0 [obs_A] [act_A] rew_flat None None)))
      = [[2, 2, 1]]
   \<and> shape (get_value (rewards (fst (load_sessions cast_int pool0 [obs_A] [act_A] rew_flat None None))))
      = [10, 5]"
  by (simp add: example_defs init_defs load_defs)

section \<open>The sizes of the pool\<close>

lemma fst_then_do:
  "Q (fst sr) \<Longrightarrow> (\<And>s. Q s \<Longrightarrow> Q (fst (f s))) \<Longrightarrow> Q (fst (then_do sr f))"
  by (cases sr; cases "snd sr") (auto simp: then_do_def)

lemma set_shared_ndim:
  "set_shared cast v x = Inr v' \<Longrightarrow> ndim (get_value v') = ndim (get_value v)"
  by (auto simp: set_shared_def split: if_splits)

lemma load_sessions_rewards_ndim:
  "ndim (get_value (rewards (fst (load_sessions cast p obs acts rew alive mems))))
     = ndim (get_value (rewards p))"
proof (cases "counts_agree p obs acts mems")
  case False
  then show ?thesis by (simp add: load_counts_disagree)
next
  case True
  define k where "k = ndim (get_value (rewards p))"
  define Q where "Q = (\<lambda>q :: 'a pool. ndim (get_value (rewards q)) = k)"
  have 0: "Q p" by (simp add: Q_def k_def)
  have 1: "Q (fst (set_observations cast obs q))" if "Q q" for q
    using that by (simp add: Q_def set_observations_def split: prod.splits)
  have 2: "Q (fst (set_actions cast acts q))" if "Q q" for q
    using that by (simp add: Q_def set_actions_def split: prod.splits)
  have 3: "Q (fst (set_rewards cast rew q))" if "Q q" for q
    using that by (auto simp: Q_def set_rewards_def dest: set_shared_ndim split: sum.splits)
  have 4: "Q (fst (set_is_alive cast alive q))" if "Q q" for q
    using that by (auto simp: Q_def set_is_alive_def split: sum.splits option.splits)
  have 5: "Q (fst (set_memories cast mems q))" if "Q q" for q
    using that by (auto simp: Q_def set_memories_def split: prod.splits option.splits)
  have "Q (fst (load_sessions cast p obs acts rew alive mems))"
    using True unfolding load_sessions_def
    by (simp add: fst_then_do 0 1 2 3 4 5)
  then show ?thesis by (simp add: Q_def k_def)
qed

lemma append_sessions_cases:
  "fst (append_sessions cast p obs acts rew alive mems m) = p
   \<or> (\<exists>ots ats rt ia ms. append_tensors p obs acts rew alive mems m = Inr (ots, ats, rt, ia, ms)
        \<and> append_sessions cast p obs acts rew alive mems m
            = load_sessions cast p ots ats rt (Some ia) (Some ms))"
  by (auto simp: append_sessions_def split: sum.splits prod.splits)

lemma append_sessions_rewards_ndim:
  "ndim (get_value (rewards (fst (append_sessions cast p obs acts rew alive mems m))))
     = ndim (get_value (rewards p))"
  using append_sessions_cases [of cast p obs acts rew alive mems m]
  by (auto simp: load_sessions_rewards_ndim)

lemma shapes_of_matrix:
  "ndim (get_value (rewards q)) = 2 \<Longrightarrow>
     pool_size q = Inr (shape (get_value (rewards q)) ! 0)
     \<and> batch_size q = pool_size q
     \<and> sequence_length q = Inr (shape (get_value (rewards q)) ! 1)"
  by (cases "shape (get_value (rewards q))"; cases "tl (shape (get_value (rewards q)))")
     (auto simp: pool_size_def batch_size_def sequence_length_def ndim_def)

lemma append_tensors_reward:
  "append_tensors p obs acts rew alive mems m = Inr (ots, ats, rt, ia, ms) \<Longrightarrow>
     rt = join (get_value (rewards p)) rew"
  by (auto simp: append_tensors_def bind_def crop_unbound read_local_def
      dest!: concatenate0_Inr split: sum.splits option.splits list.splits if_splits prod.splits)

text \<open>
  Claim C9. The pool size, the batch size and the sequence length are not stored: they
  are read from the shape of the rewards array. The rewards variable is a matrix from
  the construction on, and neither \<^verbatim>\<open>load_sessions\<close> nor \<^verbatim>\<open>append_sessions\<close>
  changes that, whether they succeed or fail; so after every such call the pool size is
  the extent of the rewards array along the pool axis and the sequence length its extent
  along the time axis. After a load that succeeds these are the extents of the rewards
  supplied, and after an append that succeeds the pool has grown by the rows supplied.
\<close>

theorem sizes_follow_rewards:
  assumes "ndim (get_value (rewards p)) = 2"
  shows "(let p' = fst (load_sessions cast p obs acts rew alive mems) in
            pool_size p' = Inr (shape (get_value (rewards p')) ! 0)
          \<and> batch_size p' = pool_size p'
          \<and> sequence_length p' = Inr (shape (get_value (rewards p')) ! 1)
          \<and> (snd (load_sessions cast p obs acts rew alive mems) = None
               \<longrightarrow> pool_size p' = Inr (shape rew ! 0) \<and> sequence_length p' = Inr (shape rew ! 1)))
       \<and> (let p' = fst (append_sessions cast p obs acts rew alive mems m) in
            pool_size p' = Inr (shape (get_value (rewards p')) ! 0)
          \<and> batch_size p' = pool_size p'
          \<and> sequence_length p' = Inr (shape (get_value (rewards p')) ! 1)
          \<and> (snd (append_sessions cast p obs acts rew alive mems m) = None
               \<longrightarrow> pool_size p' = Inr (shape (get_value (rewards p)) ! 0 + shape rew ! 0)
                 \<and> sequence_length p' = sequence_length p))"
proof -
  let ?l = "load_sessions cast p obs acts rew alive mems"
  let ?a = "append_sessions cast p obs acts rew alive mems m"
  have l: "ndim (get_value (rewards (fst ?l))) = 2"
    using assms by (simp add: load_sessions_rewards_ndim)
  have a: "ndim (get_value (rewards (fst ?a))) = 2"
    using assms by (simp add: append_sessions_rewards_ndim)
  have ls: "get_value (rewards (fst ?l)) = astype cast (dtype (rewards p)) rew" if "snd ?l = None"
  proof -
    from that have "counts_agree p obs acts mems \<and> ranks_agree p obs acts rew alive mems"
      by (cases "counts_agree p obs acts mems"; cases "ranks_agree p obs acts rew alive mems")
         (simp_all add: load_counts_disagree load_sessions_type_error)
    then show ?thesis by (simp add: load_sessions_ok loaded_def written_def)
  qed
  have as: "shape (get_value (rewards (fst ?a)))
              = (shape (get_value (rewards p)) ! 0 + shape rew ! 0) # tl (shape (get_value (rewards p)))"
    if "snd ?a = None"
  proof -
    from that have "fst ?a \<noteq> p \<or> snd ?a = None" by simp
    from that obtain ots ats rt ia ms
      where t: "append_tensors p obs acts rew alive mems m = Inr (ots, ats, rt, ia, ms)"
        and e: "?a = load_sessions cast p ots ats rt (Some ia) (Some ms)"
      by (auto simp: append_sessions_def split: sum.splits prod.splits if_splits)
    from t have rt: "rt = join (get_value (rewards p)) rew" by (rule append_tensors_reward)
    from t have j: "joinable (get_value (rewards p)) rew"
      by (auto simp: append_tensors_def bind_def dest!: concatenate0_Inr split: sum.splits)
    from that e have "snd (load_sessions cast p ots ats rt (Some ia) (Some ms)) = None" by simp
    then have "counts_agree p ots ats (Some ms) \<and> ranks_agree p ots ats rt (Some ia) (Some ms)"
      by (cases "counts_agree p ots ats (Some ms)"; cases "ranks_agree p ots ats rt (Some ia) (Some ms)")
         (simp_all add: load_counts_disagree load_sessions_type_error)
    then have "get_value (rewards (fst ?a)) = astype cast (dtype (rewards p)) rt"
      by (simp add: e load_sessions_ok loaded_def written_def)
    with rt j show ?thesis
      by (cases "get_value (rewards p)"; cases rew) (simp_all add: join_def joinable_def ndim_def)
  qed
  from assms obtain n t where sh: "shape (get_value (rewards p)) = [n, t]"
    by (cases "shape (get_value (rewards p))"; cases "tl (shape (get_value (rewards p)))")
       (auto simp: ndim_def)
  show ?thesis
    using shapes_of_matrix [OF l] shapes_of_matrix [OF a] shapes_of_matrix [OF assms] ls as sh
    by (auto simp: Let_def)
qed

theorem sizes_follow_rewards_witness:
  "ndim (get_value (rewards pool0)) = 2
   \<and> pool_size pool0 = Inr 10 \<and> sequence_length pool0 = Inr 5
   \<and> pool_size pool_A = Inr 2 \<and> sequence_length pool_A = Inr 2
   \<and> pool_size (fst (append_sessions cast_int pool_A [obs_B] [act_B] rew_B
                       (Some alive_B) (Some [mem_B]) None)) = Inr 3"
proof -
  have 0: "ndim (get_value (rewards pool0)) = 2"
    by (simp add: pool0_def init_defs ndim_def astype_def)
  have A: "ndim (get_value (rewards pool_A)) = 2"
    unfolding pool_A_def using 0 by (simp add: load_sessions_rewards_ndim)
  have l: "snd (load_sessions cast_int pool0 [obs_A] [act_A] rew_A (Some alive_A) (Some [mem_A])) = None"
    by (simp add: example_defs init_defs load_defs)
  have a: "snd (append_sessions cast_int pool_A [obs_B] [act_B] rew_B
                  (Some alive_B) (Some [mem_B]) None) = None"
    by (simp add: example_defs init_defs load_defs append_sessions_def append_tensors_def
        concatenate_all_def read_local_def)
  have s: "shape (get_value (rewards pool_A)) = [2, 2]"
    by (simp add: example_defs init_defs load_defs)
  have p0: "pool_size pool0 = Inr 10 \<and> sequence_length pool0 = Inr 5"
    by (simp add: pool0_def init_defs astype_def pool_size_def sequence_length_def)
  from sizes_follow_rewards
         [OF 0, of cast_int "[obs_A]" "[act_A]" rew_A "Some alive_A" "Some [mem_A]" None] l
  have pA: "pool_size pool_A = Inr (shape rew_A ! 0) \<and> sequence_length pool_A = Inr (shape rew_A ! 1)"
    unfolding Let_def pool_A_def by blast
  from sizes_follow_rewards
         [OF A, of cast_int "[obs_B]" "[act_B]" rew_B "Some alive_B" "Some [mem_B]" None] a
  have pB: "pool_size (fst (append_sessions cast_int pool_A [obs_B] [act_B] rew_B
                       (Some alive_B) (Some [mem_B]) None))
              = Inr (shape (get_value (rewards pool_A)) ! 0 + shape rew_B ! 0)"
    unfolding Let_def by blast
  from 0 p0 pA pB s show ?thesis
    by (simp add: rew_A_def rew_B_def)
qed

section \<open>Construction\<close>

lemma astype_zeros: "cast d 0 = 0 \<Longrightarrow> astype cast d (zeros s) = zeros s"
  by (induction s) (simp_all add: astype_def)

lemma astype_ones: "cast d 1 = 1 \<Longrightarrow> astype cast d (ones s) = ones s"
  by (induction s) (simp_all add: astype_def)

lemma get_value_enumerate:
  "map get_value (map (\<lambda>(i, l). create_shared cast (nm i) (sh l) (dt l)) (enumerate n ls))
     = map (\<lambda>l. astype cast (dt l) (sh l)) ls"
  by (induction ls arbitrary: n) (simp_all add: create_shared_def)

lemma get_value_upt:
  "map get_value (map (\<lambda>i. create_shared cast (nm i) a d) [0..<k])
     = replicate k (astype cast d a)"
  by (induction k) (simp_all add: create_shared_def replicate_append_same)

text \<open>
  Claim C8, as amended. Right after construction every stream but the liveness array
  holds zeros, of the default shape: 10 sessions of 5 ticks of 2 numbers for a counted
  observation channel, 10 sessions of 5 ticks for a counted action channel and for the
  rewards, 10 by 5 for a counted memory channel, and for a channel given by a layer the
  layer's output shape with its first axis replaced by 10 sessions of 5 ticks (by 10
  sessions, for a memory). The liveness array holds ones, 10 sessions of 5 ticks: every
  session starts alive. (The casts keep 0 and 1, as every numeric dtype does.)
\<close>

theorem init_placeholders:
  assumes "\<And>d. cast d 0 = 0" and "\<And>d. cast d 1 = 1"
  shows "map get_value (observations (init cast obs acts mems dt seed))
           = (case obs of
                Count n \<Rightarrow> replicate (nat n) (zeros [10, 5, 2])
              | Layers ls \<Rightarrow> map (\<lambda>l. zeros (10 # 5 # tl (output_shape l))) ls)
       \<and> map get_value (actions (init cast obs acts mems dt seed))
           = (case acts of
                Count n \<Rightarrow> replicate (nat n) (zeros [10, 5])
              | Layers ls \<Rightarrow> map (\<lambda>l. zeros (10 # 5 # tl (output_shape l))) ls)
       \<and> map get_value (preceding_agent_memories (init cast obs acts mems dt seed))
           = (case mems of
                Count n \<Rightarrow> replicate (nat n) (zeros [10, 5])
              | Layers ls \<Rightarrow> map (\<lambda>l. zeros (10 # tl (output_shape l))) ls)
       \<and> get_value (rewards (init cast obs acts mems dt seed)) = zeros [10, 5]
       \<and> get_value (is_alive (init cast obs acts mems dt seed)) = ones [10, 5]"
proof -
  have z: "astype cast d (zeros s) = zeros s" for d s
    using assms(1) by (rule astype_zeros)
  have o: "astype cast d (ones s) = ones s" for d s
    using assms(2) by (rule astype_ones)
  have 1: "map get_value (init_observations cast obs)
           = (case obs of
                Count n \<Rightarrow> replicate (nat n) (zeros [10, 5, 2])
              | Layers ls \<Rightarrow> map (\<lambda>l. zeros (10 # 5 # tl (output_shape l))) ls)"
    by (cases obs)
       (simp_all add: init_observations_def get_value_enumerate get_value_upt z
          del: zeros.simps map_map)
  have 2: "map get_value (init_actions cast acts dt)
           = (case acts of
                Count n \<Rightarrow> replicate (nat n) (zeros [10, 5])
              | Layers ls \<Rightarrow> map (\<lambda>l. zeros (10 # 5 # tl (output_shape l))) ls)"
    by (cases acts)
       (simp_all add: init_actions_def get_value_enumerate get_value_upt z
          del: zeros.simps map_map)
  have 3: "map get_value (init_memories cast mems)
           = (case mems of
                Count n \<Rightarrow> replicate (nat n) (zeros [10, 5])
              | Layers ls \<Rightarrow> map (\<lambda>l. zeros (10 # tl (output_shape l))) ls)"
    by (cases mems)
       (simp_all add: init_memories_def get_value_enumerate get_value_upt z
          del: zeros.simps map_map)
  show ?thesis
    unfolding init_def using 1 2 3
    by (simp add: create_shared_def z o del: zeros.simps ones.simps)
qed

theorem init_placeholders_witness:
  "map get_value (observations pool0) = [zeros [10, 5, 2]]
   \<and> map get_value (actions pool0) = [zeros [10, 5]]
   \<and> map get_value (preceding_agent_memories pool0) = [zeros [10, 5]]
   \<and> get_value (rewards pool0) = zeros [10, 5]
   \<and> get_value (is_alive pool0) = ones [10, 5]"
proof -
  have 0: "cast_int d 0 = 0" for d by (simp add: cast_int_def int32_def)
  have 1: "cast_int d 1 = 1" for d by (simp add: cast_int_def int32_def)
  from init_placeholders [of cast_int "Count 1" "Count 1" "Count 1" "''int32''" 1337, OF 0 1]
  show ?thesis unfolding pool0_def by (simp del: zeros.simps ones.simps)
qed

text \<open>
  The claim as it was stated fails for the liveness array: the constructor fills it with
  ones (\<^verbatim>\<open>np.ones([10, 5])\<close>), not with zeros.
\<close>

theorem init_liveness_counterexample:
  "get_value (is_alive pool0) = ones [10, 5]
   \<and> (ones [10, 5] :: int ndarray) \<noteq> zeros [10, 5]"
  by (simp add: pool0_def init_defs astype_def cast_int_def)

section \<open>Selecting\<close>

lemma norm_index_in_range: "in_range n i \<Longrightarrow> norm_index n i = Inr (row_of n i)"
  by (auto simp: in_range_def norm_index_def row_of_def)

lemma norm_index_out_of_range: "\<not> in_range n i \<Longrightarrow> norm_index n i = Inl IndexError"
  by (auto simp: in_range_def norm_index_def)

lemma sequence_norm_index_ok:
  "list_all (in_range n) sel \<Longrightarrow> sequence (map (norm_index n) sel) = Inr (map (row_of n) sel)"
  by (induction sel) (simp_all add: norm_index_in_range)

lemma norm_index_Inl: "norm_index n i = Inl e \<Longrightarrow> e = IndexError"
  by (auto simp: norm_index_def split: if_splits)

lemma sequence_norm_index_fail:
  "\<not> list_all (in_range n) sel \<Longrightarrow> sequence (map (norm_index n) sel) = Inl IndexError"
  by (induction sel)
     (auto simp: norm_index_in_range norm_index_out_of_range dest: norm_index_Inl
        split: sum.splits)

lemma take_rows_selected: "take_rows a sel = selected a sel"
proof (cases a)
  case (Scalar x)
  then show ?thesis by (simp add: selected_def ndim_def)
next
  case (Array ts xs)
  then show ?thesis
    by (cases "list_all (in_range (length xs)) sel")
       (simp_all add: selected_def ndim_def gather_def sequence_norm_index_ok
          sequence_norm_index_fail comp_def)
qed

text \<open>
  Claim C5, as amended. \<^verbatim>\<open>select_session_batch\<close> itself never fails: it returns a
  batch that holds, for every observation, action and memory channel and for the rewards
  and the liveness array, the selection \<^verbatim>\<open>stream[selector]\<close> of that stream.
  Evaluating the selection of a stream of \<open>n\<close> rows gives the rows at the indices in
  the list's order, duplicates included, when every index lies in \<open>[-n, n)\<close>, a negative
  index counting from the end; it fails with an IndexError when some index lies outside
  \<open>[-n, n)\<close>. Each stream is indexed against its own number of rows; for the
  rewards that number is the pool size.
\<close>

theorem select_gathers:
  "select_session_batch p selector =
     \<lparr>batch_observations = map (\<lambda>v. selected (get_value v) selector) (observations p),
      batch_observation_shapes = observation_shapes p,
      batch_actions = map (\<lambda>v. selected (get_value v) selector) (actions p),
      batch_action_shapes = action_shapes p,
      batch_rewards = selected (get_value (rewards p)) selector,
      batch_is_alive = selected (get_value (is_alive p)) selector,
      batch_preceding_agent_memories =
        map (\<lambda>v. selected (get_value v) selector) (preceding_agent_memories p)\<rparr>
   \<and> (pool_size p = Inr n \<longrightarrow>
        batch_rewards (select_session_batch p selector)
          = (if list_all (in_range n) selector
             then Inr (gather n (get_value (rewards p)) selector)
             else Inl IndexError))"
proof -
  have "selected (get_value (rewards p)) selector
          = (if list_all (in_range n) selector
             then Inr (gather n (get_value (rewards p)) selector)
             else Inl IndexError)" if "pool_size p = Inr n"
    using that
    by (cases "get_value (rewards p)") (auto simp: pool_size_def selected_def ndim_def)
  then show ?thesis
    by (simp add: select_session_batch_def take_rows_selected)
qed

theorem select_gathers_witness:
  "pool_size pool_A = Inr 2
   \<and> batch_rewards (select_session_batch pool_A [1, 1, 0])
       = Inr (Array [2] [vec [0, 0], vec [0, 0], vec [1, 1]])
   \<and> batch_observations (select_session_batch pool_A [1, 1, 0])
       = [Inr (Array [2, 1] [Array [1] [vec [3], vec [4]], Array [1] [vec [3], vec [4]],
                             Array [1] [vec [1], vec [2]]])]
   \<and> batch_rewards (select_session_batch pool_A [0, 2]) = Inl IndexError"
proof -
  have g: "get_value (rewards pool_A) = rew_A" "map get_value (observations pool_A) = [obs_A]"
    by (simp_all add: example_defs init_defs load_defs cast_int_def floatX_def)
  then obtain v where v: "observations pool_A = [v]" "get_value v = obs_A"
    by (cases "observations pool_A") auto
  have n: "pool_size pool_A = Inr 2"
    by (simp add: pool_size_def g rew_A_def)
  from select_gathers [of pool_A "[1, 1, 0]" 2] select_gathers [of pool_A "[0, 2]" 2] n g v
  show ?thesis
    by (simp add: in_range_def gather_def row_of_def selected_def ndim_def rew_A_def obs_A_def)
qed

text \<open>
  The claim as it was stated fails in two ways. In the pool of the two sessions \<open>A\<close>
  the index \<open>-1\<close> is outside \<open>[0, 2)\<close>, and every selection evaluates, to the
  last row. And in the pool that was loaded without a liveness array the index \<open>5\<close> is
  outside \<open>[0, 2)\<close>: the selection of the rewards raises, that of the liveness
  array, which still has its ten placeholder rows, does not.
\<close>

theorem select_negative_index_counterexample:
  "pool_size pool_A = Inr 2
   \<and> batch_rewards (select_session_batch pool_A [-1]) = Inr (Array [2] [vec [0, 0]])
   \<and> batch_observations (select_session_batch pool_A [-1])
       = [Inr (Array [2, 1] [Array [1] [vec [3], vec [4]]])]
   \<and> batch_is_alive (select_session_batch pool_A [-1]) = Inr (Array [2] [vec [1, 0]])
   \<and> pool_size pool_A_only = Inr 2
   \<and> batch_rewards (select_session_batch pool_A_only [5]) = Inl IndexError
   \<and> batch_is_alive (select_session_batch pool_A_only [5]) = Inr (Array [5] [ones [5]])"
  by (simp add: select_session_batch_def pool_size_def norm_index_def
      example_defs init_defs load_defs cast_int_def floatX_def)

text \<open>
  Sampling asks the random stream for \<open>min(max_n_samples, pool_size)\<close> indices below
  the pool size (for \<open>max_n_samples\<close> of them, with replacement) and selects at the
  indices drawn. Which indices are drawn is the random stream's doing.
\<close>

lemma sample_session_batch_request:
  "pool_size p = Inr n \<Longrightarrow>
     sample_session_batch choice p max_n_samples replace
       = Inr (select_session_batch p
               (choice (if replace then max_n_samples else min max_n_samples (int n)) n replace))"
  by (simp add: sample_session_batch_def)

section \<open>The padded view\<close>

lemma sessionsD:
  assumes "sessions n T a"
  shows "\<exists>rest xs. a = Array (T # rest) xs \<and> length xs = n
           \<and> (\<forall>x\<in>set xs. \<exists>ys. x = Array rest ys \<and> length ys = T)"
proof -
  from assms obtain ts xs where a: "a = Array ts xs"
    by (cases a) (auto simp: sessions_def ndim_def)
  with assms obtain rest where ts: "ts = T # rest" and n: "length xs = n"
    by (cases ts) (auto simp: sessions_def ndim_def)
  have "\<exists>ys. x = Array rest ys \<and> length ys = T" if "x \<in> set xs" for x
  proof -
    from assms a ts that have "shape x = T # rest"
      by (auto simp: sessions_def list_all_iff)
    then show ?thesis by (cases x) auto
  qed
  with a ts n show ?thesis by blast
qed

lemma shape_zeros [simp]: "shape (zeros s) = s"
  by (induction s) simp_all

lemma map2_replicate: "map2 f xs (replicate (length xs) c) = map (\<lambda>x. f x c) xs"
  by (induction xs) simp_all

lemma padded_pad:
  assumes "sessions n T a" "0 < T"
  shows "padded a = Inr (pad a)"
proof -
  from sessionsD [OF assms(1)] obtain rest xs
    where a: "a = Array (T # rest) xs" "length xs = n" by blast
  have c: "column a 0 = Inr (Array rest (map (\<lambda>x. items x ! 0) xs))"
    using assms(2) by (simp add: a norm_index_def)
  have i: "insert_dim (Array rest ys) 1 = Inr (Array (1 # rest) (map (\<lambda>x. Array (shape x) [x]) ys))"
    for ys :: "'a ndarray list"
    by (simp add: sequence_map_Inr)
  have m: "map2 (\<lambda>x y. Array rest (items x @ items y)) xs
             (replicate n (Array rest (replicate 1 (zeros rest))))
           = map (\<lambda>row. Array rest (items row @ [zeros rest])) xs"
    using map2_replicate [of "\<lambda>x y. Array rest (items x @ items y)" xs "Array rest [zeros rest]"]
    by (simp add: a(2))
  show ?thesis
    unfolding padded_def c
    by (simp add: i zeros_like_def a pad_def m del: insert_dim.simps One_nat_def)
qed

lemma entry_pad:
  assumes "sessions n T a" "b < n"
  shows "(\<forall>j<T. entry (pad a) b j = entry a b j)
         \<and> entry (pad a) b T = zeros (drop 2 (shape a))"
proof -
  from sessionsD [OF assms(1)] obtain rest xs
    where a: "a = Array (T # rest) xs" "length xs = n"
      and rows: "\<And>x. x \<in> set xs \<Longrightarrow> \<exists>ys. x = Array rest ys \<and> length ys = T"
    by blast
  from assms(2) a(2) have "xs ! b \<in> set xs" by simp
  from rows [OF this] obtain ys where ys: "xs ! b = Array rest ys" "length ys = T" by blast
  with assms(2) a show ?thesis
    by (simp add: entry_def pad_def nth_append)
qed

lemma int32_id: "0 \<le> x \<Longrightarrow> x < 2 ^ 31 \<Longrightarrow> int32 x = x"
  by (simp add: int32_def)

lemma sequence_map_cong_Inr:
  "(\<And>x. x \<in> set xs \<Longrightarrow> f x = Inr (g x)) \<Longrightarrow> sequence (map f xs) = Inr (map g xs)"
  by (induction xs) simp_all

lemma zip_map_replicate: "zip (map f xs) (replicate (length xs) c) = map (\<lambda>x. (f x, c)) xs"
  by (induction xs) simp_all

lemma zip_upt_replicate: "zip (map int [0..<n]) (replicate n c) = map (\<lambda>b. (int b, c)) [0..<n]"
  using zip_map_replicate [of int "[0..<n]" c] by simp

lemma index_pairs_column:
  assumes "length xs = n" "0 \<le> j" "j < int T'"
  shows "index_pairs (Array (T' # rest) xs) (map int [0..<n]) (replicate n j)
           = column (Array (T' # rest) xs) j"
proof -
  have k: "norm_index T' j = Inr (nat j)"
    using assms(2,3) by (simp add: norm_index_def)
  have r: "norm_index (length xs) (int b) = Inr b" if "b < n" for b
    using that assms(1) by (simp add: norm_index_def)
  have "sequence (map (\<lambda>b. bind (norm_index (length xs) (int b)) (\<lambda>i.
                          bind (norm_index T' j) (\<lambda>k. Inr (items (xs ! i) ! k)))) [0..<n])
          = Inr (map (\<lambda>b. items (xs ! b) ! nat j) [0..<n])"
    by (rule sequence_map_cong_Inr) (simp add: k r)
  moreover have "map (\<lambda>b. items (xs ! b) ! nat j) [0..<n] = map (\<lambda>x. items x ! nat j) xs"
    using assms(1) by (simp add: list_eq_iff_nth_eq)
  ultimately show ?thesis
    by (simp add: zip_upt_replicate k comp_def)
qed


lemma pad_Array:
  assumes "sessions n T a"
  shows "\<exists>xs. pad a = Array (Suc T # drop 2 (shape a)) xs \<and> length xs = n"
proof -
  from sessionsD [OF assms] obtain rest xs
    where a: "a = Array (T # rest) xs" "length xs = n" by blast
  then show ?thesis by (simp add: pad_def)
qed

lemma column_pad:
  assumes "sessions n T a" "0 \<le> j" "j \<le> int T"
  shows "column (pad a) j
           = Inr (Array (drop 2 (shape a)) (map (\<lambda>b. entry (pad a) b (nat j)) [0..<n]))"
    and "index_pairs (pad a) (map int [0..<n]) (replicate n j) = column (pad a) j"
proof -
  from pad_Array [OF assms(1)] obtain xs
    where p: "pad a = Array (Suc T # drop 2 (shape a)) xs" "length xs = n" by blast
  have k: "norm_index (Suc T) j = Inr (nat j)"
    using assms(2,3) by (simp add: norm_index_def)
  have "map (\<lambda>x. items x ! nat j) xs = map (\<lambda>b. items (xs ! b) ! nat j) [0..<n]"
    using p(2) by (simp add: list_eq_iff_nth_eq)
  then show "column (pad a) j
           = Inr (Array (drop 2 (shape a)) (map (\<lambda>b. entry (pad a) b (nat j)) [0..<n]))"
    by (simp add: p k entry_def)
  from assms(2,3) show "index_pairs (pad a) (map int [0..<n]) (replicate n j) = column (pad a) j"
    unfolding p(1) by (intro index_pairs_column p(2)) simp_all
qed

lemma column_pad_last:
  assumes "sessions n T a"
  shows "column (pad a) (int T) = Inr (zeros (n # drop 2 (shape a)))"
proof -
  have "map (\<lambda>b. entry (pad a) b T) [0..<n] = replicate n (zeros (drop 2 (shape a)))"
    using entry_pad [OF assms] by (simp add: list_eq_iff_nth_eq)
  with column_pad(1) [OF assms, of "int T"] show ?thesis by simp
qed

text \<open>
  Claim C4, as amended. Let every observation array hold \<open>n\<close> sessions of \<open>T\<close>
  ticks, and let \<open>t\<close> be a tick, \<open>0 \<le> t < T\<close> (ticks are int32, so
  \<open>T < 2^31\<close>). The padded view of each channel is the array with one more tick per
  session: it agrees with the stream at every tick before \<open>T\<close> and is zero at tick
  \<open>T\<close>. The action-result step for the \<open>n\<close> sessions at tick \<open>t\<close> returns
  the state \<open>t + 1\<close> and, for every channel, the column \<open>t + 1\<close> of the padded
  view, whatever the actions are; at the last tick \<open>t = T - 1\<close> that is the state
  \<open>T\<close> and an observation of zeros, and no index error is raised. Here \<open>T\<close> is
  the number of ticks of the observation arrays themselves. It is the pool's sequence
  length, which is read from the rewards, only when observations and rewards were loaded
  with the same number of ticks.
\<close>

theorem padded_view_and_step:
  assumes ok: "list_all (\<lambda>v. sessions n T (get_value v)) (observations p)"
    and t: "0 \<le> t" "t < int T" and T: "int T < 2 ^ 31"
  shows "padded_observations p = Inr (map (\<lambda>v. pad (get_value v)) (observations p))
       \<and> (\<forall>v\<in>set (observations p). \<forall>b<n.
             (\<forall>j<T. entry (pad (get_value v)) b j = entry (get_value v) b j)
             \<and> entry (pad (get_value v)) b T = zeros (drop 2 (shape (get_value v))))
       \<and> (\<exists>cols. sequence (map (\<lambda>v. column (pad (get_value v)) (t + 1)) (observations p)) = Inr cols
             \<and> get_action_results p [replicate n t] acts = Inr ([replicate n (t + 1)], cols))
       \<and> (t = int T - 1 \<longrightarrow>
             get_action_results p [replicate n t] acts
               = Inr ([replicate n (int T)],
                      map (\<lambda>v. zeros (n # drop 2 (shape (get_value v)))) (observations p)))"
proof -
  from ok have s: "sessions n T (get_value v)" if "v \<in> set (observations p)" for v
    using that by (simp add: list_all_iff)
  from t have T0: "0 < T" by simp
  have 1: "padded_observations p = Inr (map (\<lambda>v. pad (get_value v)) (observations p))"
    unfolding padded_observations_def
    by (rule sequence_map_cong_Inr) (rule padded_pad [OF s T0])
  have 2: "\<forall>v\<in>set (observations p). \<forall>b<n.
             (\<forall>j<T. entry (pad (get_value v)) b j = entry (get_value v) b j)
             \<and> entry (pad (get_value v)) b T = zeros (drop 2 (shape (get_value v)))"
    using entry_pad s by blast
  have i32: "int32 (t + 1) = t + 1"
    using t T by (intro int32_id) simp_all
  define cols where "cols = map (\<lambda>v. Array (drop 2 (shape (get_value v)))
                      (map (\<lambda>b. entry (pad (get_value v)) b (nat (t + 1))) [0..<n])) (observations p)"
  have c: "sequence (map (\<lambda>v. column (pad (get_value v)) (t + 1)) (observations p)) = Inr cols"
    unfolding cols_def
    by (rule sequence_map_cong_Inr) (use t in \<open>simp add: column_pad(1) [OF s]\<close>)
  have ip: "map (\<lambda>obs. index_pairs obs (map int [0..<n]) (replicate n (t + 1)))
              (map (\<lambda>v. pad (get_value v)) (observations p))
            = map (\<lambda>v. column (pad (get_value v)) (t + 1)) (observations p)"
    using t by (simp add: column_pad(2) [OF s])
  have 3: "get_action_results p [replicate n t] acts = Inr ([replicate n (t + 1)], cols)"
    by (simp add: get_action_results_def 1 i32 ip c del: map_map)
  have 4: "cols = map (\<lambda>v. zeros (n # drop 2 (shape (get_value v)))) (observations p)"
    if "t = int T - 1"
  proof -
    have "sequence (map (\<lambda>v. column (pad (get_value v)) (t + 1)) (observations p))
            = Inr (map (\<lambda>v. zeros (n # drop 2 (shape (get_value v)))) (observations p))"
      by (rule sequence_map_cong_Inr) (use that in \<open>simp add: column_pad_last [OF s]\<close>)
    with c show ?thesis by simp
  qed
  from 1 2 3 4 c show ?thesis by auto
qed

theorem padded_view_and_step_witness:
  "list_all (\<lambda>v. sessions 2 2 (get_value v)) (observations pool_A)
   \<and> padded_observations pool_A
       = Inr [Array [3, 1] [Array [1] [vec [1], vec [2], vec [0]],
                            Array [1] [vec [3], vec [4], vec [0]]]]
   \<and> get_action_results pool_A [[1, 1]] () = Inr ([[2, 2]], [Array [1] [vec [0], vec [0]]])"
proof -
  have g: "map get_value (observations pool_A) = [obs_A]"
    by (simp add: example_defs init_defs load_defs cast_int_def floatX_def)
  then obtain v where v: "observations pool_A = [v]" "get_value v = obs_A"
    by (cases "observations pool_A") auto
  have ok: "list_all (\<lambda>v. sessions 2 2 (get_value v)) (observations pool_A)"
    by (simp add: v sessions_def ndim_def obs_A_def vec_def)
  from padded_view_and_step [OF ok, of 1 "()"]
  have P: "padded_observations pool_A = Inr (map (\<lambda>v. pad (get_value v)) (observations pool_A))"
    and G: "get_action_results pool_A [replicate 2 1] ()
              = Inr ([replicate 2 (int 2)],
                     map (\<lambda>v. zeros (2 # drop 2 (shape (get_value v)))) (observations pool_A))"
    by simp_all
  have p: "pad obs_A = Array [3, 1] [Array [1] [vec [1], vec [2], vec [0]],
                                    Array [1] [vec [3], vec [4], vec [0]]]"
    by (simp add: pad_def obs_A_def vec_def Let_def)
  have z: "drop 2 (shape obs_A) = [1]"
    by (simp add: obs_A_def)
  have r: "replicate 2 x = [x, x]" for x :: 'b
    by (simp add: numeral_2_eq_2)
  from P G ok show ?thesis
    by (simp add: v p z r vec_def)
qed

text \<open>
  The claim as it was stated, with the sequence length for \<open>T\<close>, fails on a pool
  whose rewards have more ticks than its observations: the load accepts two-tick
  observations with five-tick rewards, the sequence length is then five, and the step at
  tick four reads the padded observations, of three ticks, out of range.
\<close>

theorem step_at_last_reward_tick_counterexample:
  "snd (load_sessions cast_int pool0 [obs_A] [act_A] rew_5 None None) = None
   \<and> sequence_length pool_A_5 = Inr 5
   \<and> map (\<lambda>v. shape (get_value v)) (observations pool_A_5) = [[2, 2, 1]]
   \<and> get_action_results pool_A_5 [[4, 4]] () = Inl IndexError"
  by (simp add: example_defs init_defs load_defs sequence_length_def
      get_action_results_def padded_observations_def padded_def norm_index_def zeros_like_def
      int32_def)

end
